theory Spec2Isabelle
  imports Complex_Main
begin

section \<open>JavaScript values shared by the adapters\<close>

text \<open>
  A value that a JavaScript function throws (or a promise rejects with) is either an
  \<open>Error\<close> object, identified here by its \<open>message\<close>, or some other value, kept as
  the text \<open>String(value)\<close> gives. An asynchronous function returning \<open>T\<close> is
  modelled as returning \<open>thrown + T\<close>: \<open>Inl\<close> is the rejection.
\<close>

datatype thrown = JSError string | NonError string

text \<open>\<open>`${error}`\<close>: the text of a thrown value inside a template literal.\<close>

fun thrownText :: "thrown \<Rightarrow> string" where
  "thrownText (JSError m) = ''Error: '' @ m"
| "thrownText (NonError v) = v"

section \<open>ExpoPKCEAdapter\<close>

text \<open>The 66 characters \<open>generateRandomString\<close> draws from.\<close>

definition charset :: string where
  "charset = ''ABCDEFGHIJKLMNOPQRSTUVWXYZabcdefghijklmnopqrstuvwxyz0123456789-._~''"

text \<open>
  \<open>String.prototype.charAt\<close>: the one-character string at the index, the empty string
  when the index is out of range.
\<close>

definition charAt :: "string \<Rightarrow> int \<Rightarrow> string" where
  "charAt s i = (if 0 \<le> i \<and> i < int (length s) then [s ! nat i] else [])"

text \<open>
  The loop of \<open>generateRandomString\<close>. \<open>Math.random\<close> is the environment: its
  \<open>i\<close>-th call returns \<open>rnd i\<close>, and iteration \<open>i\<close> of the loop is the \<open>i\<close>-th
  call. The product and \<open>Math.floor\<close> are taken over the reals.
\<close>

function generateRandomString_loop :: "(nat \<Rightarrow> real) \<Rightarrow> nat \<Rightarrow> nat \<Rightarrow> string \<Rightarrow> string" where
  "generateRandomString_loop rnd len i result =
     (if i < len
      then generateRandomString_loop rnd len (Suc i)
             (result @ charAt charset \<lfloor>rnd i * real (length charset)\<rfloor>)
      else result)"
  by pat_completeness auto
termination
  by (relation "measure (\<lambda>(rnd, len, i, result). len - i)") auto

declare generateRandomString_loop.simps [simp del]

definition generateRandomString :: "(nat \<Rightarrow> real) \<Rightarrow> nat \<Rightarrow> string" where
  "generateRandomString rnd len = generateRandomString_loop rnd len 0 []"

text \<open>\<open>s.replace(/c/g, d)\<close> for a one-character pattern and replacement.\<close>

definition replaceAllChar :: "char \<Rightarrow> char \<Rightarrow> string \<Rightarrow> string" where
  "replaceAllChar c d s = map (\<lambda>x. if x = c then d else x) s"

text \<open>\<open>s.replace(/[c]/g, '')\<close>: every occurrence of the character removed.\<close>

definition removeAllChar :: "char \<Rightarrow> string \<Rightarrow> string" where
  "removeAllChar c s = filter (\<lambda>x. x \<noteq> c) s"

text \<open>
  \<open>sha256\<close>: the platform's \<open>Crypto.digestStringAsync(SHA256, plain, BASE64)\<close> is the
  parameter \<open>digest\<close>; its rejection propagates unchanged.
\<close>

definition sha256 :: "(string \<Rightarrow> thrown + string) \<Rightarrow> string \<Rightarrow> thrown + string" where
  "sha256 digest plain =
     (case digest plain of
        Inl e \<Rightarrow> Inl e
      | Inr hash \<Rightarrow>
          Inr (removeAllChar (CHR ''='')
                (replaceAllChar (CHR ''/'') (CHR ''_'')
                  (replaceAllChar (CHR ''+'') (CHR ''-'') hash))))"

record PKCEChallenge =
  codeChallenge :: string
  codeChallengeMethod :: string
  codeVerifier :: string

definition generateCodeChallenge ::
  "(nat \<Rightarrow> real) \<Rightarrow> (string \<Rightarrow> thrown + string) \<Rightarrow> thrown + PKCEChallenge" where
  "generateCodeChallenge rnd digest =
     (let verifier = generateRandomString rnd 128 in
      case sha256 digest verifier of
        Inl e \<Rightarrow> Inl e
      | Inr challenge \<Rightarrow>
          Inr \<lparr>codeChallenge = challenge, codeChallengeMethod = ''S256'',
               codeVerifier = verifier\<rparr>)"

subsection \<open>What the specification says of a PKCE set\<close>

text \<open>The character class \<open>[A-Za-z0-9]\<close>.\<close>

definition isAlnum :: "char \<Rightarrow> bool" where
  "isAlnum c = (let n = (of_char c :: nat) in
      (65 \<le> n \<and> n \<le> 90) \<or> (97 \<le> n \<and> n \<le> 122) \<or> (48 \<le> n \<and> n \<le> 57))"

text \<open>\<open>^[A-Za-z0-9\-._~]+$\<close>\<close>

definition matchesUnreserved :: "string \<Rightarrow> bool" where
  "matchesUnreserved s =
     (s \<noteq> [] \<and> list_all (\<lambda>c. isAlnum c \<or> c \<in> set ''-._~'') s)"

text \<open>\<open>^[A-Za-z0-9_-]+$\<close>\<close>

definition matchesBase64Url :: "string \<Rightarrow> bool" where
  "matchesBase64Url s = (s \<noteq> [] \<and> list_all (\<lambda>c. isAlnum c \<or> c \<in> set ''_-'') s)"

text \<open>
  A standard base64 text with at least one character of payload: what the platform
  digest returns under \<open>CryptoEncoding.BASE64\<close>.
\<close>

definition isStdBase64 :: "string \<Rightarrow> bool" where
  "isStdBase64 s =
     (list_all (\<lambda>c. isAlnum c \<or> c \<in> set ''+/='') s \<and> list_ex (\<lambda>c. c \<noteq> CHR ''='') s)"

text \<open>
  The base64url transform in the specification's words: substitute \<open>+\<close> by \<open>-\<close> and
  \<open>/\<close> by \<open>_\<close>, and strip all \<open>=\<close> padding.
\<close>

definition base64url :: "string \<Rightarrow> string" where
  "base64url s =
     filter (\<lambda>c. c \<noteq> CHR ''='')
       (map (\<lambda>c. if c = CHR ''+'' then CHR ''-'' else if c = CHR ''/'' then CHR ''_'' else c) s)"


section \<open>ExpoStorageAdapter\<close>

subsection \<open>The AsyncStorage backend\<close>

text \<open>
  \<open>AsyncStorage\<close> is the platform's key-value store. The model keeps its contents, the
  log of the calls made to it, and the environment's choice of which call rejects: the
  call number \<open>n\<close> (counted from 0) rejects with \<open>e\<close> when \<open>rejects n call = Some e\<close>.
  A rejected call leaves the contents as they were.
\<close>

datatype backendCall =
    SetItem string string
  | GetItem string
  | RemoveItem string
  | MultiRemove "string list"

record asyncStorage =
  items :: "string \<rightharpoonup> string"
  calls :: "backendCall list"
  rejects :: "nat \<Rightarrow> backendCall \<Rightarrow> thrown option"

definition backend :: "backendCall \<Rightarrow> asyncStorage \<Rightarrow> (thrown + string option) \<times> asyncStorage" where
  "backend c st =
     (let st' = st\<lparr>calls := calls st @ [c]\<rparr> in
      case rejects st (length (calls st)) c of
        Some e \<Rightarrow> (Inl e, st')
      | None \<Rightarrow>
          (case c of
             SetItem k v \<Rightarrow> (Inr None, st'\<lparr>items := (items st)(k \<mapsto> v)\<rparr>)
           | GetItem k \<Rightarrow> (Inr (items st k), st')
           | RemoveItem k \<Rightarrow> (Inr None, st'\<lparr>items := (items st)(k := None)\<rparr>)
           | MultiRemove ks \<Rightarrow> (Inr None, st'\<lparr>items := items st |` (- set ks)\<rparr>)))"

text \<open>\<open>await m; rest\<close>: a rejection of \<open>m\<close> skips the rest.\<close>

definition awaitThen ::
  "('s \<Rightarrow> (thrown + 'a) \<times> 's) \<Rightarrow> ('a \<Rightarrow> 's \<Rightarrow> (thrown + 'b) \<times> 's) \<Rightarrow> 's \<Rightarrow> (thrown + 'b) \<times> 's" where
  "awaitThen m f st = (case m st of (Inl e, st') \<Rightarrow> (Inl e, st') | (Inr x, st') \<Rightarrow> f x st')"

subsection \<open>JavaScript helpers\<close>

text \<open>\<open>Array.prototype.join\<close>\<close>

fun join :: "string \<Rightarrow> string list \<Rightarrow> string" where
  "join sep [] = []"
| "join sep [x] = x"
| "join sep (x # y # ys) = x @ sep @ join sep (y # ys)"

text \<open>Truthiness of \<open>string | null | undefined\<close> and of \<open>number | undefined\<close>.\<close>

definition truthyString :: "string option \<Rightarrow> bool" where
  "truthyString v = (case v of None \<Rightarrow> False | Some s \<Rightarrow> s \<noteq> [])"

definition truthyNumber :: "int option \<Rightarrow> bool" where
  "truthyNumber v = (case v of None \<Rightarrow> False | Some n \<Rightarrow> n \<noteq> 0)"

text \<open>
  \<open>Number.prototype.toString\<close> on an integer: its decimal digits, with a minus sign when
  negative. (Times and lifetimes are integers here; fractions and the exponent notation
  of numbers from \<open>1e21\<close> on are outside the model.)
\<close>

fun digitsOf :: "nat \<Rightarrow> string" where
  "digitsOf n =
     (if n < 10 then [''0123456789'' ! n]
      else digitsOf (n div 10) @ [''0123456789'' ! (n mod 10)])"

declare digitsOf.simps [simp del]

definition numberToString :: "int \<Rightarrow> string" where
  "numberToString n = (if n < 0 then CHR ''-'' # digitsOf (nat (- n)) else digitsOf (nat n))"

text \<open>
  \<open>parseInt(s, 10)\<close>: leading white space is skipped, one sign is read, then the longest
  run of decimal digits; no digit gives \<open>NaN\<close>.
\<close>

datatype jsnum = NaN | Num int

definition isWhiteSpace :: "char \<Rightarrow> bool" where
  "isWhiteSpace c = ((of_char c :: nat) \<in> {9, 10, 11, 12, 13, 32})"

definition isDigit :: "char \<Rightarrow> bool" where
  "isDigit c = (48 \<le> (of_char c :: nat) \<and> (of_char c :: nat) \<le> 57)"

definition digitsValue :: "string \<Rightarrow> nat" where
  "digitsValue ds = foldl (\<lambda>a c. 10 * a + ((of_char c :: nat) - 48)) 0 ds"

definition parseInt :: "string \<Rightarrow> jsnum" where
  "parseInt s =
     (let t = dropWhile isWhiteSpace s;
          neg = (case t of [] \<Rightarrow> False | c # _ \<Rightarrow> c = CHR ''-'');
          u = (case t of [] \<Rightarrow> [] | c # r \<Rightarrow> if c = CHR ''-'' \<or> c = CHR ''+'' then r else t);
          ds = takeWhile isDigit u
      in if ds = [] then NaN
         else Num (if neg then - int (digitsValue ds) else int (digitsValue ds)))"

text \<open>\<open>Date.now() >= e\<close>: a comparison with \<open>NaN\<close> is false.\<close>

fun nowAtLeast :: "int \<Rightarrow> jsnum \<Rightarrow> bool" where
  "nowAtLeast now NaN = False"
| "nowAtLeast now (Num e) = (e \<le> now)"

subsection \<open>The adapter's methods\<close>

definition setItem :: "string \<Rightarrow> string \<Rightarrow> asyncStorage \<Rightarrow> (thrown + unit) \<times> asyncStorage" where
  \<open>setItem key v st =
     (case backend (SetItem key v) st of
        (Inl e, st') \<Rightarrow>
          (Inl (JSError (''Failed to store item with key "'' @ key @ ''": '' @ thrownText e)), st')
      | (Inr _, st') \<Rightarrow> (Inr (), st'))\<close>

definition getItem :: "string \<Rightarrow> asyncStorage \<Rightarrow> (thrown + string option) \<times> asyncStorage" where
  \<open>getItem key st =
     (case backend (GetItem key) st of
        (Inl e, st') \<Rightarrow>
          (Inl (JSError (''Failed to retrieve item with key "'' @ key @ ''": '' @ thrownText e)), st')
      | (Inr v, st') \<Rightarrow> (Inr v, st'))\<close>

definition removeItem :: "string \<Rightarrow> asyncStorage \<Rightarrow> (thrown + unit) \<times> asyncStorage" where
  \<open>removeItem key st =
     (case backend (RemoveItem key) st of
        (Inl e, st') \<Rightarrow>
          (Inl (JSError (''Failed to remove item with key "'' @ key @ ''": '' @ thrownText e)), st')
      | (Inr _, st') \<Rightarrow> (Inr (), st'))\<close>

definition removeItems :: "string list \<Rightarrow> asyncStorage \<Rightarrow> (thrown + unit) \<times> asyncStorage" where
  \<open>removeItems keys st =
     (case backend (MultiRemove keys) st of
        (Inl e, st') \<Rightarrow>
          (Inl (JSError (''Failed to remove items with keys "'' @ join '', '' keys @ ''": ''
                          @ thrownText e)), st')
      | (Inr _, st') \<Rightarrow> (Inr (), st'))\<close>

definition oauthKeys :: "string list" where
  "oauthKeys =
     [''access_token'', ''refresh_token'', ''token_expiry'', ''token_type'',
      ''oauth_state'', ''oauth_state_expiry'',
      ''pkce_code_verifier'', ''pkce_code_challenge'', ''pkce_code_challenge_method'']"

definition clearOAuthStorage :: "asyncStorage \<Rightarrow> (thrown + unit) \<times> asyncStorage" where
  "clearOAuthStorage st = removeItems oauthKeys st"

text \<open>
  \<open>storeTokens({accessToken, refreshToken?, expiresIn?})\<close>; \<open>now\<close> is what \<open>Date.now()\<close>
  returns during the call. The two optional fields are tested for truthiness.
\<close>

definition storeTokens ::
  "string \<Rightarrow> string option \<Rightarrow> int option \<Rightarrow> int \<Rightarrow> asyncStorage \<Rightarrow> (thrown + unit) \<times> asyncStorage" where
  "storeTokens accessTokenArg refreshTokenArg expiresIn now =
     awaitThen (setItem ''access_token'' accessTokenArg) (\<lambda>_.
     awaitThen (case refreshTokenArg of
                  Some r \<Rightarrow> if truthyString refreshTokenArg then setItem ''refresh_token'' r
                            else (\<lambda>st. (Inr (), st))
                | None \<Rightarrow> (\<lambda>st. (Inr (), st))) (\<lambda>_.
     awaitThen (case expiresIn of
                  Some secs \<Rightarrow> if truthyNumber expiresIn
                               then setItem ''token_expiry'' (numberToString (now + secs * 1000))
                               else (\<lambda>st. (Inr (), st))
                | None \<Rightarrow> (\<lambda>st. (Inr (), st))) (\<lambda>_.
     setItem ''token_type'' ''Bearer'')))"

record TokenData =
  accessToken :: "string option"
  refreshToken :: "string option"
  expiresAt :: "jsnum option"
  tokenType :: "string option"

text \<open>
  \<open>getTokens\<close>: \<open>Promise.all\<close> over four reads. All four are issued, in this order; the
  result rejects with the first rejection among them.
\<close>

definition getTokens :: "asyncStorage \<Rightarrow> (thrown + TokenData) \<times> asyncStorage" where
  "getTokens st =
     (let (r1, st1) = getItem ''access_token'' st;
          (r2, st2) = getItem ''refresh_token'' st1;
          (r3, st3) = getItem ''token_expiry'' st2;
          (r4, st4) = getItem ''token_type'' st3
      in case r1 of Inl e \<Rightarrow> (Inl e, st4) | Inr accessTokenV \<Rightarrow>
         (case r2 of Inl e \<Rightarrow> (Inl e, st4) | Inr refreshTokenV \<Rightarrow>
         (case r3 of Inl e \<Rightarrow> (Inl e, st4) | Inr expiresAtStr \<Rightarrow>
         (case r4 of Inl e \<Rightarrow> (Inl e, st4) | Inr tokenTypeV \<Rightarrow>
            (Inr \<lparr>accessToken = accessTokenV,
                  refreshToken = refreshTokenV,
                  expiresAt = (case expiresAtStr of
                                 None \<Rightarrow> None
                               | Some s \<Rightarrow> if s = [] then None else Some (parseInt s)),
                  tokenType = (if truthyString tokenTypeV then tokenTypeV else None)\<rparr>,
             st4)))))"

text \<open>
  \<open>isTokenExpired(expiresAt?)\<close>: \<open>None\<close> is an argument that is \<open>undefined\<close> or
  \<open>null\<close>; \<open>now\<close> is what \<open>Date.now()\<close> returns.
\<close>

definition isTokenExpired ::
  "jsnum option \<Rightarrow> int \<Rightarrow> asyncStorage \<Rightarrow> (thrown + bool) \<times> asyncStorage" where
  "isTokenExpired expiresAtArg now st =
     (case expiresAtArg of
        Some e \<Rightarrow> (Inr (nowAtLeast now e), st)
      | None \<Rightarrow>
          awaitThen (getItem ''token_expiry'') (\<lambda>expiresAtStr st'.
            case expiresAtStr of
              None \<Rightarrow> (Inr True, st')
            | Some s \<Rightarrow> if s = [] then (Inr True, st')
                        else (Inr (nowAtLeast now (parseInt s)), st')) st)"


section \<open>ExpoOAuthAdapter\<close>

text \<open>
  A value of \<open>OAuthCallbackParams\<close>: \<open>string | null | undefined\<close>. The parameter
  object is the list of its entries, in the order \<open>Object.entries\<close> gives them.
\<close>

datatype paramValue = PNull | PUndefined | PString string

type_synonym callbackParams = "(string \<times> paramValue) list"

text \<open>\<open>String(value)\<close>\<close>

fun stringOf :: "paramValue \<Rightarrow> string" where
  "stringOf PNull = ''null''"
| "stringOf PUndefined = ''undefined''"
| "stringOf (PString s) = s"

text \<open>
  \<open>URLSearchParams\<close> as the list of its name-value pairs. \<open>set\<close> replaces the value of
  the first pair of that name and deletes the other pairs of that name, or appends a new
  pair when the name is absent.
\<close>

type_synonym urlSearchParams = "(string \<times> string) list"

fun urlParamsSet :: "string \<Rightarrow> string \<Rightarrow> urlSearchParams \<Rightarrow> urlSearchParams" where
  "urlParamsSet k v [] = [(k, v)]"
| "urlParamsSet k v ((k', v') # ps) =
     (if k' = k then (k, v) # filter (\<lambda>p. fst p \<noteq> k) ps
      else (k', v') # urlParamsSet k v ps)"

text \<open>The \<open>forEach\<close> over the entries, starting from an empty \<open>URLSearchParams\<close>.\<close>

definition toURLSearchParams :: "callbackParams \<Rightarrow> urlSearchParams" where
  "toURLSearchParams params =
     foldl (\<lambda>urlParams (key, v).
              if v \<noteq> PNull \<and> v \<noteq> PUndefined then urlParamsSet key (stringOf v) urlParams
              else urlParams)
       [] params"

text \<open>
  \<open>ExpoOAuthAdapter.handleCallback\<close>: \<open>core\<close> is the external core's
  \<open>handleCallback\<close>, which receives the \<open>URLSearchParams\<close>.
\<close>

definition ExpoOAuthAdapter_handleCallback :: "(urlSearchParams \<Rightarrow> 'r) \<Rightarrow> callbackParams \<Rightarrow> 'r" where
  "ExpoOAuthAdapter_handleCallback core params = core (toURLSearchParams params)"

definition logout :: "asyncStorage \<Rightarrow> (thrown + unit) \<times> asyncStorage" where
  "logout st = clearOAuthStorage st"

text \<open>
  \<open>ExpoOAuthAdapter.getAccessToken\<close>. The external core's \<open>getAccessToken\<close> and
  \<open>isTokenExpired\<close> are the parameters \<open>coreGetAccessToken\<close> and
  \<open>coreIsTokenExpired\<close>; they work on the same store. First the body of the \<open>try\<close>
  block, then the method, whose \<open>catch\<close> turns every rejection into \<open>null\<close>.
\<close>

definition getAccessToken_try ::
  "(asyncStorage \<Rightarrow> (thrown + string option) \<times> asyncStorage) \<Rightarrow>
   (asyncStorage \<Rightarrow> (thrown + bool) \<times> asyncStorage) \<Rightarrow>
   asyncStorage \<Rightarrow> (thrown + string option) \<times> asyncStorage" where
  "getAccessToken_try coreGetAccessToken coreIsTokenExpired =
     awaitThen coreGetAccessToken (\<lambda>accessTokenV.
       if \<not> truthyString accessTokenV then (\<lambda>st. (Inr None, st))
       else awaitThen coreIsTokenExpired (\<lambda>isExpired.
              if isExpired then awaitThen logout (\<lambda>_ st. (Inr None, st))
              else (\<lambda>st. (Inr accessTokenV, st))))"

definition getAccessToken ::
  "(asyncStorage \<Rightarrow> (thrown + string option) \<times> asyncStorage) \<Rightarrow>
   (asyncStorage \<Rightarrow> (thrown + bool) \<times> asyncStorage) \<Rightarrow>
   asyncStorage \<Rightarrow> string option \<times> asyncStorage" where
  "getAccessToken coreGetAccessToken coreIsTokenExpired st =
     (case getAccessToken_try coreGetAccessToken coreIsTokenExpired st of
        (Inl e, st') \<Rightarrow> (None, st')
      | (Inr v, st') \<Rightarrow> (v, st'))"

section \<open>useOAuthCallback\<close>

datatype OAuthStatus = StatusProcessing | StatusSuccess | StatusError

text \<open>
  \<open>OAuthResult\<close> of the external core: the success flag, the optional \<open>error\<close> text, and
  the remaining fields of the payload as name-value pairs.
\<close>

record OAuthResult =
  success :: bool
  error :: "string option"
  other :: "(string \<times> string) list"

text \<open>
  The hook's options. A callback is a function of the caller; here it returns \<open>None\<close>
  when it returns normally and \<open>Some e\<close> when it throws \<open>e\<close>.
\<close>

record hookOptions =
  onSuccess :: "(OAuthResult \<Rightarrow> thrown option) option"
  onError :: "(thrown \<Rightarrow> thrown option) option"
  autoStart :: "bool option"

text \<open>
  What an observer sees of one hook instance: the two state cells, and the arguments of
  every call made to the two callbacks, in order.
\<close>

record hookWorld =
  status :: OAuthStatus
  message :: string
  onSuccessCalls :: "OAuthResult list"
  onErrorCalls :: "thrown list"

definition initialWorld :: hookWorld where
  "initialWorld = \<lparr>status = StatusProcessing, message = ''Processing OAuth callback...'',
                    onSuccessCalls = [], onErrorCalls = []\<rparr>"

text \<open>\<open>options?.onSuccess?.(result)\<close> and \<open>options?.onError?.(error)\<close>\<close>

definition callOnSuccess :: "hookOptions option \<Rightarrow> OAuthResult \<Rightarrow> hookWorld \<Rightarrow> thrown option \<times> hookWorld" where
  "callOnSuccess options result w =
     (case options of
        None \<Rightarrow> (None, w)
      | Some opts \<Rightarrow>
          (case onSuccess opts of
             None \<Rightarrow> (None, w)
           | Some f \<Rightarrow> (f result, w\<lparr>onSuccessCalls := onSuccessCalls w @ [result]\<rparr>)))"

definition callOnError :: "hookOptions option \<Rightarrow> thrown \<Rightarrow> hookWorld \<Rightarrow> thrown option \<times> hookWorld" where
  "callOnError options err w =
     (case options of
        None \<Rightarrow> (None, w)
      | Some opts \<Rightarrow>
          (case onError opts of
             None \<Rightarrow> (None, w)
           | Some f \<Rightarrow> (f err, w\<lparr>onErrorCalls := onErrorCalls w @ [err]\<rparr>)))"

text \<open>
  The \<open>try\<close> block of \<open>handleCallback\<close>. \<open>adapterHandle config params\<close> stands for
  \<open>new ExpoOAuthAdapter(config)\<close> followed by \<open>await adapter.handleCallback(params)\<close>:
  \<open>Inl\<close> when either throws. The result is what the block throws, if anything.
\<close>

definition handleCallback_try ::
  "('c \<Rightarrow> callbackParams \<Rightarrow> thrown + OAuthResult) \<Rightarrow> callbackParams \<Rightarrow> 'c \<Rightarrow>
   hookOptions option \<Rightarrow> hookWorld \<Rightarrow> thrown option \<times> hookWorld" where
  "handleCallback_try adapterHandle params config options w =
     (let w1 = w\<lparr>status := StatusProcessing, message := ''Processing OAuth callback...''\<rparr> in
      case adapterHandle config params of
        Inl e \<Rightarrow> (Some e, w1)
      | Inr result \<Rightarrow>
          if success result
          then callOnSuccess options result
                 (w1\<lparr>status := StatusSuccess, message := ''Authentication successful''\<rparr>)
          else (Some (JSError (case error result of
                                 None \<Rightarrow> ''OAuth authentication failed''
                               | Some reason \<Rightarrow>
                                   if reason \<noteq> [] then reason
                                   else ''OAuth authentication failed'')), w1))"

text \<open>
  \<open>handleCallback\<close> of the hook: the \<open>try\<close> block, then the \<open>catch\<close> block when
  something was thrown. The result is the rejection of the returned promise, if any
  (only a throwing error callback causes one).
\<close>

definition useOAuthCallback_handleCallback ::
  "('c \<Rightarrow> callbackParams \<Rightarrow> thrown + OAuthResult) \<Rightarrow> callbackParams \<Rightarrow> 'c \<Rightarrow>
   hookOptions option \<Rightarrow> hookWorld \<Rightarrow> thrown option \<times> hookWorld" where
  "useOAuthCallback_handleCallback adapterHandle params config options w =
     (case handleCallback_try adapterHandle params config options w of
        (None, w') \<Rightarrow> (None, w')
      | (Some err, w') \<Rightarrow>
          (let errorMessage = (case err of JSError m \<Rightarrow> m
                                         | NonError _ \<Rightarrow> ''Unknown error occurred'')
           in callOnError options
                (case err of JSError m \<Rightarrow> JSError m | NonError _ \<Rightarrow> JSError errorMessage)
                (w'\<lparr>status := StatusError, message := errorMessage\<rparr>)))"

text \<open>\<open>retry\<close> calls \<open>handleCallback\<close> and drops the promise.\<close>

definition retry ::
  "('c \<Rightarrow> callbackParams \<Rightarrow> thrown + OAuthResult) \<Rightarrow> callbackParams \<Rightarrow> 'c \<Rightarrow>
   hookOptions option \<Rightarrow> hookWorld \<Rightarrow> hookWorld" where
  "retry adapterHandle params config options w =
     snd (useOAuthCallback_handleCallback adapterHandle params config options w)"

text \<open>The mount effect: \<open>if (options?.autoStart !== false) handleCallback()\<close>.\<close>

definition autoStartEffect ::
  "('c \<Rightarrow> callbackParams \<Rightarrow> thrown + OAuthResult) \<Rightarrow> callbackParams \<Rightarrow> 'c \<Rightarrow>
   hookOptions option \<Rightarrow> hookWorld \<Rightarrow> hookWorld" where
  "autoStartEffect adapterHandle params config options w =
     (if (case options of None \<Rightarrow> None | Some opts \<Rightarrow> autoStart opts) \<noteq> Some False
      then snd (useOAuthCallback_handleCallback adapterHandle params config options w)
      else w)"

section \<open>OAuthCallbackScreen: the auto-redirect effect\<close>

text \<open>
  The pending timers of the JavaScript runtime: each has the handle \<open>setTimeout\<close>
  returned, its delay in milliseconds and its callback. The only callback this component
  schedules is an arrow function with an empty body.
\<close>

datatype timerCallback = EmptyCallback

record timers =
  pending :: "(nat \<times> int \<times> timerCallback) list"
  nextHandle :: nat

definition setTimeout :: "timerCallback \<Rightarrow> int \<Rightarrow> timers \<Rightarrow> nat \<times> timers" where
  "setTimeout cb delay ts =
     (nextHandle ts,
      ts\<lparr>pending := pending ts @ [(nextHandle ts, delay, cb)], nextHandle := Suc (nextHandle ts)\<rparr>)"

definition clearTimeout :: "nat \<Rightarrow> timers \<Rightarrow> timers" where
  "clearTimeout h ts = ts\<lparr>pending := filter (\<lambda>t. fst t \<noteq> h) (pending ts)\<rparr>"

text \<open>
  The props the effect reads, with the defaults of the component's parameter list:
  \<open>autoRedirect = true\<close>, \<open>redirectDelay = 1500\<close>. Of \<open>onSuccess\<close> only its presence
  matters to the effect.
\<close>

record screenProps =
  autoRedirect :: "bool option"
  redirectDelay :: "int option"
  onSuccessSupplied :: bool

definition autoRedirectOf :: "screenProps \<Rightarrow> bool" where
  "autoRedirectOf props = (case autoRedirect props of None \<Rightarrow> True | Some b \<Rightarrow> b)"

definition redirectDelayOf :: "screenProps \<Rightarrow> int" where
  "redirectDelayOf props = (case redirectDelay props of None \<Rightarrow> 1500 | Some d \<Rightarrow> d)"

text \<open>
  The effect body: it returns the timer its cleanup function will clear, or \<open>None\<close> when
  it returns \<open>undefined\<close>.
\<close>

definition autoRedirectEffect :: "OAuthStatus \<Rightarrow> screenProps \<Rightarrow> timers \<Rightarrow> nat option \<times> timers" where
  "autoRedirectEffect st props ts =
     (if st = StatusSuccess \<and> autoRedirectOf props \<and> onSuccessSupplied props
      then (let (timer, ts') = setTimeout EmptyCallback (redirectDelayOf props) ts
            in (Some timer, ts'))
      else (None, ts))"

text \<open>The cleanup React runs on unmount (and before the effect runs again).\<close>

definition autoRedirectCleanup :: "nat option \<Rightarrow> timers \<Rightarrow> timers" where
  "autoRedirectCleanup cleanup ts = (case cleanup of None \<Rightarrow> ts | Some timer \<Rightarrow> clearTimeout timer ts)"

text \<open>
  What running a scheduled callback does to the hook's observable world when its timer
  fires. The arrow function passed to \<open>setTimeout\<close> has an empty body (it holds only a
  comment): it sets no state and calls no callback.
\<close>

fun runTimerCallback :: "timerCallback \<Rightarrow> hookWorld \<Rightarrow> hookWorld" where
  "runTimerCallback EmptyCallback w = w"

section \<open>Properties of the PKCE adapter\<close>

lemma charset_length: "length charset = 66"
  by (simp add: charset_def)

lemma random_index_in_range:
  assumes "0 \<le> r" "r < 1"
  shows "0 \<le> \<lfloor>r * real (length charset)\<rfloor> \<and> \<lfloor>r * real (length charset)\<rfloor> < int (length charset)"
proof -
  have "r * 66 < 66" using assms by simp
  moreover have "0 \<le> r * 66" using assms by simp
  ultimately show ?thesis by (simp add: charset_length floor_less_iff)
qed

lemma loop_length:
  "(\<forall>k. 0 \<le> rnd k \<and> rnd k < 1) \<Longrightarrow>
   length (generateRandomString_loop rnd len i result) = length result + (len - i)"
proof (induction rnd len i result rule: generateRandomString_loop.induct)
  case (1 rnd len i result)
  show ?case
  proof (cases "i < len")
    case True
    have r: "0 \<le> rnd i" "rnd i < 1" using "1.prems" by auto
    have "length (charAt charset \<lfloor>rnd i * real (length charset)\<rfloor>) = 1"
      using random_index_in_range [OF r] by (simp add: charAt_def)
    with True "1.IH" "1.prems" show ?thesis
      by (simp add: generateRandomString_loop.simps [of rnd len i result])
  next
    case False
    then show ?thesis by (simp add: generateRandomString_loop.simps [of rnd len i result])
  qed
qed

lemma charAt_set: "set (charAt s i) \<subseteq> set s"
  by (auto simp: charAt_def)

lemma loop_set:
  "set (generateRandomString_loop rnd len i result) \<subseteq> set result \<union> set charset"
proof (induction rnd len i result rule: generateRandomString_loop.induct)
  case (1 rnd len i result)
  show ?case
  proof (cases "i < len")
    case True
    with "1.IH" charAt_set [of charset] show ?thesis
      by (subst generateRandomString_loop.simps) auto
  next
    case False
    then show ?thesis by (simp add: generateRandomString_loop.simps [of rnd len i result])
  qed
qed

lemma charset_unreserved: "list_all (\<lambda>c. isAlnum c \<or> c \<in> set ''-._~'') charset"
  by (simp add: charset_def isAlnum_def)

lemma charset_distinct: "distinct charset"
  by (simp add: charset_def)

lemma sha256_transform:
  "removeAllChar (CHR ''='') (replaceAllChar (CHR ''/'') (CHR ''_'')
      (replaceAllChar (CHR ''+'') (CHR ''-'') h)) = base64url h"
  by (induction h) (auto simp: removeAllChar_def replaceAllChar_def base64url_def)

lemma base64url_free: "set (base64url h) \<inter> {CHR ''+'', CHR ''/'', CHR ''=''} = {}"
  by (auto simp: base64url_def)

lemma base64url_class:
  "list_all (\<lambda>c. isAlnum c \<or> c \<in> set ''+/='') h \<Longrightarrow>
   list_all (\<lambda>c. isAlnum c \<or> c \<in> set ''_-'') (base64url h)"
  by (induction h) (auto simp: base64url_def)

lemma base64url_nonempty:
  "list_ex (\<lambda>c. c \<noteq> CHR ''='') h \<Longrightarrow> base64url h \<noteq> []"
  by (induction h) (auto simp: base64url_def)


text \<open>
  Claim C1. Every PKCE set that \<open>generateCodeChallenge\<close> returns has a verifier of
  exactly 128 characters, each from the 66-character set \<open>[A-Za-z0-9-._~]\<close>; its
  challenge is the base64url form of the platform's base64 digest of that verifier
  (\<open>+\<close> to \<open>-\<close>, \<open>/\<close> to \<open>_\<close>, every \<open>=\<close> removed), matches
  \<open>^[A-Za-z0-9_-]+$\<close> and holds none of \<open>+\<close>, \<open>/\<close>, \<open>=\<close>; its method is
  \<open>S256\<close>. The platform is assumed to keep its contracts: \<open>Math.random\<close> returns a
  number in \<open>[0, 1)\<close>, and the digest, when it resolves, is standard base64 text.
\<close>

theorem pkce_set_wellformed:
  assumes rnd: "\<forall>k. 0 \<le> rnd k \<and> rnd k < 1"
    and dig: "\<forall>s h. digest s = Inr h \<longrightarrow> isStdBase64 h"
    and gen: "generateCodeChallenge rnd digest = Inr p"
  shows "length (codeVerifier p) = 128 \<and> length charset = 66 \<and> distinct charset
       \<and> set (codeVerifier p) \<subseteq> set charset
       \<and> matchesUnreserved (codeVerifier p)
       \<and> (\<exists>h. digest (codeVerifier p) = Inr h \<and> codeChallenge p = base64url h)
       \<and> matchesBase64Url (codeChallenge p)
       \<and> CHR ''+'' \<notin> set (codeChallenge p)
       \<and> CHR ''/'' \<notin> set (codeChallenge p)
       \<and> CHR ''='' \<notin> set (codeChallenge p)
       \<and> codeChallengeMethod p = ''S256''"
proof -
  define v where "v = generateRandomString rnd 128"
  from gen obtain h where h: "digest v = Inr h"
    and p: "p = \<lparr>codeChallenge = base64url h, codeChallengeMethod = ''S256'', codeVerifier = v\<rparr>"
    by (auto simp: generateCodeChallenge_def sha256_def sha256_transform v_def Let_def
             split: sum.splits)
  have len: "length v = 128"
    using loop_length [OF rnd, of 128 0 "[]"] by (simp add: v_def generateRandomString_def)
  have sub: "set v \<subseteq> set charset"
    using loop_set [of rnd 128 0 "[]"] by (simp add: v_def generateRandomString_def)
  have "list_all (\<lambda>c. isAlnum c \<or> c \<in> set ''-._~'') v"
    using sub charset_unreserved unfolding list_all_iff by blast
  moreover have "v \<noteq> []" using len by auto
  ultimately have unres: "matchesUnreserved v" by (simp add: matchesUnreserved_def)
  have std: "isStdBase64 h" using dig h by blast
  have m: "matchesBase64Url (base64url h)"
    using std base64url_class [of h] base64url_nonempty [of h]
    by (simp add: matchesBase64Url_def isStdBase64_def)
  have free: "CHR ''+'' \<notin> set (base64url h)" "CHR ''/'' \<notin> set (base64url h)"
    "CHR ''='' \<notin> set (base64url h)"
    using base64url_free [of h] by auto
  show ?thesis
    using len sub unres h m free charset_length charset_distinct by (simp add: p)
qed

text \<open>
  The theorem at a concrete platform: every draw of \<open>Math.random\<close> is \<open>1/2\<close> (index
  33, the letter \<open>h\<close>) and the digest is the base64 SHA-256 of the empty text, which
  holds \<open>+\<close>, \<open>/\<close> and \<open>=\<close>.
\<close>

theorem pkce_set_wellformed_witness:
  "(\<forall>k::nat. (0::real) \<le> 1 / 2 \<and> (1::real) / 2 < 1)
   \<and> isStdBase64 ''47DEQpj8HBSa+/TImW+5JCeuQeRkm5NMpJWZG3hSuFU=''
   \<and> generateCodeChallenge (\<lambda>_. 1 / 2) (\<lambda>_. Inr ''47DEQpj8HBSa+/TImW+5JCeuQeRkm5NMpJWZG3hSuFU='')
       = Inr \<lparr>codeChallenge = ''47DEQpj8HBSa-_TImW-5JCeuQeRkm5NMpJWZG3hSuFU'',
              codeChallengeMethod = ''S256'',
              codeVerifier = ''hhhhhhhhhhhhhhhhhhhhhhhhhhhhhhhhhhhhhhhhhhhhhhhhhhhhhhhhhhhhhhhhhhhhhhhhhhhhhhhhhhhhhhhhhhhhhhhhhhhhhhhhhhhhhhhhhhhhhhhhhhhhhhhh''\<rparr>
   \<and> length ''hhhhhhhhhhhhhhhhhhhhhhhhhhhhhhhhhhhhhhhhhhhhhhhhhhhhhhhhhhhhhhhhhhhhhhhhhhhhhhhhhhhhhhhhhhhhhhhhhhhhhhhhhhhhhhhhhhhhhhhhhhhhhhhh'' = 128
   \<and> matchesBase64Url ''47DEQpj8HBSa-_TImW-5JCeuQeRkm5NMpJWZG3hSuFU''"
proof -
  let ?dg = "\<lambda>_::string. (Inr ''47DEQpj8HBSa+/TImW+5JCeuQeRkm5NMpJWZG3hSuFU='' :: thrown + string)"
  have r: "\<forall>k::nat. (0::real) \<le> (\<lambda>_. 1 / 2) k \<and> (\<lambda>_. 1 / 2) k < (1::real)" by simp
  have d: "\<forall>s h. ?dg s = Inr h \<longrightarrow> isStdBase64 h"
    by (auto simp: isStdBase64_def isAlnum_def)
  have g: "generateCodeChallenge (\<lambda>_. 1 / 2) ?dg
       = Inr \<lparr>codeChallenge = ''47DEQpj8HBSa-_TImW-5JCeuQeRkm5NMpJWZG3hSuFU'',
              codeChallengeMethod = ''S256'',
              codeVerifier = ''hhhhhhhhhhhhhhhhhhhhhhhhhhhhhhhhhhhhhhhhhhhhhhhhhhhhhhhhhhhhhhhhhhhhhhhhhhhhhhhhhhhhhhhhhhhhhhhhhhhhhhhhhhhhhhhhhhhhhhhhhhhhhhhh''\<rparr>"
    by (simp add: generateCodeChallenge_def sha256_def removeAllChar_def replaceAllChar_def
        generateRandomString_def generateRandomString_loop.simps charAt_def charset_def)
  show ?thesis
    using pkce_set_wellformed [OF r d g] r d g by (simp add: base64url_def isStdBase64_def isAlnum_def)
qed

section \<open>Properties of the storage adapter\<close>

lemma setItem_accepted:
  "rejects st (length (calls st)) (SetItem k v) = None \<Longrightarrow>
   setItem k v st = (Inr (), st\<lparr>calls := calls st @ [SetItem k v], items := (items st)(k \<mapsto> v)\<rparr>)"
  by (simp add: setItem_def backend_def Let_def)

lemma getItem_accepted:
  "rejects st (length (calls st)) (GetItem k) = None \<Longrightarrow>
   getItem k st = (Inr (items st k), st\<lparr>calls := calls st @ [GetItem k]\<rparr>)"
  by (simp add: getItem_def backend_def Let_def)

lemma removeItems_accepted:
  "rejects st (length (calls st)) (MultiRemove ks) = None \<Longrightarrow>
   removeItems ks st =
     (Inr (), st\<lparr>calls := calls st @ [MultiRemove ks], items := items st |` (- set ks)\<rparr>)"
  by (simp add: removeItems_def backend_def Let_def)

lemma removeItems_rejected:
  \<open>rejects st (length (calls st)) (MultiRemove ks) = Some e \<Longrightarrow>
   removeItems ks st =
     (Inl (JSError (''Failed to remove items with keys "'' @ join '', '' ks @ ''": '' @ thrownText e)),
      st\<lparr>calls := calls st @ [MultiRemove ks]\<rparr>)\<close>
  by (simp add: removeItems_def backend_def Let_def)

lemma removeItems_calls: "calls (snd (removeItems ks st)) = calls st @ [MultiRemove ks]"
  by (cases "rejects st (length (calls st)) (MultiRemove ks)")
     (simp_all add: removeItems_def backend_def Let_def)

lemma oauthKeys_joined:
  "join '', '' oauthKeys =
     ''access_token, refresh_token, token_expiry, token_type, oauth_state, oauth_state_expiry, pkce_code_verifier, pkce_code_challenge, pkce_code_challenge_method''"
  by (simp add: oauthKeys_def)

text \<open>
  Claim C8. \<open>clearOAuthStorage\<close> issues one bulk-remove call, for exactly the nine
  reserved keys. When the store accepts the call the nine keys are gone and every other
  key keeps its value; when the store rejects it, the method rejects with one wrapped
  error that names the nine keys and the cause.
\<close>

theorem clearOAuthStorage_exact:
  \<open>set oauthKeys = {''access_token'', ''refresh_token'', ''token_expiry'', ''token_type'',
       ''oauth_state'', ''oauth_state_expiry'', ''pkce_code_verifier'', ''pkce_code_challenge'',
       ''pkce_code_challenge_method''}
   \<and> length oauthKeys = 9 \<and> distinct oauthKeys
   \<and> calls (snd (clearOAuthStorage st)) = calls st @ [MultiRemove oauthKeys]
   \<and> (rejects st (length (calls st)) (MultiRemove oauthKeys) = None \<longrightarrow>
        fst (clearOAuthStorage st) = Inr ()
        \<and> (\<forall>k. items (snd (clearOAuthStorage st)) k
               = (if k \<in> set oauthKeys then None else items st k)))
   \<and> (\<forall>e. rejects st (length (calls st)) (MultiRemove oauthKeys) = Some e \<longrightarrow>
        fst (clearOAuthStorage st) =
          Inl (JSError (''Failed to remove items with keys "access_token, refresh_token, token_expiry, token_type, oauth_state, oauth_state_expiry, pkce_code_verifier, pkce_code_challenge, pkce_code_challenge_method": ''
                        @ thrownText e)))\<close>
proof -
  have keys: \<open>set oauthKeys = {''access_token'', ''refresh_token'', ''token_expiry'', ''token_type'',
       ''oauth_state'', ''oauth_state_expiry'', ''pkce_code_verifier'', ''pkce_code_challenge'',
       ''pkce_code_challenge_method''}\<close> "length oauthKeys = 9" "distinct oauthKeys"
    by (simp_all add: oauthKeys_def)
  have log: "calls (snd (clearOAuthStorage st)) = calls st @ [MultiRemove oauthKeys]"
    by (simp add: clearOAuthStorage_def removeItems_calls)
  have ok: "fst (clearOAuthStorage st) = Inr ()
        \<and> (\<forall>k. items (snd (clearOAuthStorage st)) k
               = (if k \<in> set oauthKeys then None else items st k))"
    if "rejects st (length (calls st)) (MultiRemove oauthKeys) = None"
    using removeItems_accepted [OF that] by (simp add: clearOAuthStorage_def restrict_map_def)
  have bad: \<open>fst (clearOAuthStorage st) =
          Inl (JSError (''Failed to remove items with keys "access_token, refresh_token, token_expiry, token_type, oauth_state, oauth_state_expiry, pkce_code_verifier, pkce_code_challenge, pkce_code_challenge_method": ''
                        @ thrownText e))\<close>
    if "rejects st (length (calls st)) (MultiRemove oauthKeys) = Some e" for e
    using removeItems_rejected [OF that] oauthKeys_joined by (simp add: clearOAuthStorage_def)
  show ?thesis using keys log ok bad by blast
qed


text \<open>
  The theorem on a store that accepts the call (a key outside the nine survives) and on
  a store that rejects it.
\<close>

theorem clearOAuthStorage_exact_witness:
  \<open>rejects \<lparr>items = [''access_token'' \<mapsto> ''tok'', ''user_pref'' \<mapsto> ''dark''], calls = [],
             rejects = (\<lambda>_ _. None)\<rparr> 0 (MultiRemove oauthKeys) = None
   \<and> fst (clearOAuthStorage \<lparr>items = [''access_token'' \<mapsto> ''tok'', ''user_pref'' \<mapsto> ''dark''],
             calls = [], rejects = (\<lambda>_ _. None)\<rparr>) = Inr ()
   \<and> items (snd (clearOAuthStorage \<lparr>items = [''access_token'' \<mapsto> ''tok'', ''user_pref'' \<mapsto> ''dark''],
             calls = [], rejects = (\<lambda>_ _. None)\<rparr>)) ''access_token'' = None
   \<and> items (snd (clearOAuthStorage \<lparr>items = [''access_token'' \<mapsto> ''tok'', ''user_pref'' \<mapsto> ''dark''],
             calls = [], rejects = (\<lambda>_ _. None)\<rparr>)) ''user_pref'' = Some ''dark''
   \<and> rejects \<lparr>items = [''access_token'' \<mapsto> ''tok''], calls = [],
             rejects = (\<lambda>_ _. Some (JSError ''disk full''))\<rparr> 0 (MultiRemove oauthKeys)
       = Some (JSError ''disk full'')
   \<and> fst (clearOAuthStorage \<lparr>items = [''access_token'' \<mapsto> ''tok''], calls = [],
             rejects = (\<lambda>_ _. Some (JSError ''disk full''))\<rparr>)
       = Inl (JSError ''Failed to remove items with keys "access_token, refresh_token, token_expiry, token_type, oauth_state, oauth_state_expiry, pkce_code_verifier, pkce_code_challenge, pkce_code_challenge_method": Error: disk full'')\<close>
  using clearOAuthStorage_exact
          [of "\<lparr>items = [''access_token'' \<mapsto> ''tok'', ''user_pref'' \<mapsto> ''dark''], calls = [],
                rejects = (\<lambda>_ _. None)\<rparr>"]
        clearOAuthStorage_exact
          [of "\<lparr>items = [''access_token'' \<mapsto> ''tok''], calls = [],
                rejects = (\<lambda>_ _. Some (JSError ''disk full''))\<rparr>"]
  by (simp add: oauthKeys_def)

lemma parseInt_empty: "parseInt [] = NaN"
  by (simp add: parseInt_def)

lemma isTokenExpired_explicit: "isTokenExpired (Some (Num e)) now st = (Inr (e \<le> now), st)"
  by (simp add: isTokenExpired_def)

lemma isTokenExpired_missing:
  assumes "rejects st (length (calls st)) (GetItem ''token_expiry'') = None"
    and "items st ''token_expiry'' = None"
  shows "fst (isTokenExpired None now st) = Inr True"
  using getItem_accepted [OF assms(1)] assms(2) by (simp add: isTokenExpired_def awaitThen_def)

lemma isTokenExpired_stored:
  assumes "rejects st (length (calls st)) (GetItem ''token_expiry'') = None"
    and "items st ''token_expiry'' = Some s" and "parseInt s = Num x"
  shows "fst (isTokenExpired None now st) = Inr (x \<le> now)"
proof -
  have "s \<noteq> []" using assms(3) parseInt_empty by auto
  then show ?thesis
    using getItem_accepted [OF assms(1)] assms(2,3) by (simp add: isTokenExpired_def awaitThen_def)
qed

text \<open>
  Claim C5. \<open>isTokenExpired\<close> with an explicit expiry compares it with the current time
  and leaves the store untouched (no read is issued). Without an argument, and with the
  read accepted by the store: no stored expiry gives \<open>true\<close>; a stored expiry below the
  current time gives \<open>true\<close>; one above it gives \<open>false\<close>.
\<close>

theorem isTokenExpired_cases:
  "isTokenExpired (Some (Num e)) now st = (Inr (e \<le> now), st)
   \<and> (rejects st (length (calls st)) (GetItem ''token_expiry'') = None \<longrightarrow>
        (items st ''token_expiry'' = None \<longrightarrow> fst (isTokenExpired None now st) = Inr True)
      \<and> (\<forall>s x. items st ''token_expiry'' = Some s \<and> parseInt s = Num x \<longrightarrow>
             (x < now \<longrightarrow> fst (isTokenExpired None now st) = Inr True)
           \<and> (now < x \<longrightarrow> fst (isTokenExpired None now st) = Inr False)))"
  using isTokenExpired_explicit [of e now st] isTokenExpired_missing [of st now]
    isTokenExpired_stored [of st _ _ now]
  by auto

lemma parseInt_1000: "parseInt ''1000'' = Num 1000"
  by (simp add: parseInt_def isWhiteSpace_def isDigit_def digitsValue_def)

lemma parseInt_3000: "parseInt ''3000'' = Num 3000"
  by (simp add: parseInt_def isWhiteSpace_def isDigit_def digitsValue_def)

text \<open>
  The three storage cases at the time 2000: nothing stored, 1000 stored, 3000 stored.
\<close>

theorem isTokenExpired_cases_witness:
  "rejects \<lparr>items = Map.empty, calls = [], rejects = (\<lambda>_ _. None)\<rparr> 0 (GetItem ''token_expiry'') = None
   \<and> fst (isTokenExpired None 2000 \<lparr>items = Map.empty, calls = [], rejects = (\<lambda>_ _. None)\<rparr>)
       = Inr True
   \<and> parseInt ''1000'' = Num 1000 \<and> (1000::int) < 2000
   \<and> fst (isTokenExpired None 2000
            \<lparr>items = [''token_expiry'' \<mapsto> ''1000''], calls = [], rejects = (\<lambda>_ _. None)\<rparr>)
       = Inr True
   \<and> parseInt ''3000'' = Num 3000 \<and> (2000::int) < 3000
   \<and> fst (isTokenExpired None 2000
            \<lparr>items = [''token_expiry'' \<mapsto> ''3000''], calls = [], rejects = (\<lambda>_ _. None)\<rparr>)
       = Inr False"
  using isTokenExpired_cases
          [of 0 2000 "\<lparr>items = Map.empty, calls = [], rejects = (\<lambda>_ _. None)\<rparr>"]
        isTokenExpired_cases
          [of 0 2000 "\<lparr>items = [''token_expiry'' \<mapsto> ''1000''], calls = [], rejects = (\<lambda>_ _. None)\<rparr>"]
        isTokenExpired_cases
          [of 0 2000 "\<lparr>items = [''token_expiry'' \<mapsto> ''3000''], calls = [], rejects = (\<lambda>_ _. None)\<rparr>"]
        parseInt_1000 parseInt_3000
  by simp


lemma storeTokens_accepted:
  assumes ok: "\<forall>n c. rejects st n c = None"
  shows "storeTokens a r x now st =
           (Inr (),
            st\<lparr>calls := calls st
                   @ [SetItem ''access_token'' a]
                   @ (case r of None \<Rightarrow> []
                      | Some v \<Rightarrow> if v \<noteq> [] then [SetItem ''refresh_token'' v] else [])
                   @ (case x of None \<Rightarrow> []
                      | Some secs \<Rightarrow>
                          if secs \<noteq> 0
                          then [SetItem ''token_expiry'' (numberToString (now + secs * 1000))]
                          else [])
                   @ [SetItem ''token_type'' ''Bearer''],
                items := ((items st)(''access_token'' \<mapsto> a)
                   ++ (case r of None \<Rightarrow> Map.empty
                       | Some v \<Rightarrow> if v \<noteq> [] then [''refresh_token'' \<mapsto> v] else Map.empty)
                   ++ (case x of None \<Rightarrow> Map.empty
                       | Some secs \<Rightarrow>
                           if secs \<noteq> 0
                           then [''token_expiry'' \<mapsto> numberToString (now + secs * 1000)]
                           else Map.empty))
                   (''token_type'' \<mapsto> ''Bearer'')\<rparr>)"
  using ok
  by (cases r; cases x)
     (simp_all add: storeTokens_def awaitThen_def setItem_accepted truthyString_def
        truthyNumber_def)

lemma getTokens_accepted:
  assumes ok: "\<forall>n c. rejects st n c = None"
  shows "fst (getTokens st) =
           Inr \<lparr>accessToken = items st ''access_token'',
                refreshToken = items st ''refresh_token'',
                expiresAt = (case items st ''token_expiry'' of
                               None \<Rightarrow> None
                             | Some s \<Rightarrow> if s = [] then None else Some (parseInt s)),
                tokenType = (if truthyString (items st ''token_type'')
                             then items st ''token_type'' else None)\<rparr>"
  using ok by (simp add: getTokens_def getItem_accepted)

text \<open>
  Claim C6. On a store that accepts every call, \<open>storeTokens\<close> completes, writes the
  access token and stamps the token type \<open>Bearer\<close>, whatever the optional fields are; an
  omitted refresh token or lifetime leaves its key as it was. With both omitted, exactly
  two writes are issued, and from a store with none of the OAuth keys \<open>getTokens\<close> then
  returns the access token, \<open>null\<close> for the refresh token and the expiry, and
  \<open>Bearer\<close>.
\<close>

theorem storeTokens_then_getTokens:
  assumes ok: "\<forall>n c. rejects st n c = None"
  shows "fst (storeTokens a r x now st) = Inr ()
     \<and> items (snd (storeTokens a r x now st)) ''access_token'' = Some a
     \<and> items (snd (storeTokens a r x now st)) ''token_type'' = Some ''Bearer''
     \<and> (r = None \<longrightarrow>
          items (snd (storeTokens a r x now st)) ''refresh_token'' = items st ''refresh_token'')
     \<and> (x = None \<longrightarrow>
          items (snd (storeTokens a r x now st)) ''token_expiry'' = items st ''token_expiry'')
     \<and> (r = None \<and> x = None \<longrightarrow>
          calls (snd (storeTokens a r x now st))
            = calls st @ [SetItem ''access_token'' a, SetItem ''token_type'' ''Bearer''])
     \<and> (r = None \<and> x = None \<and> (\<forall>k \<in> set oauthKeys. items st k = None) \<longrightarrow>
          fst (getTokens (snd (storeTokens a r x now st)))
            = Inr \<lparr>accessToken = Some a, refreshToken = None, expiresAt = None,
                   tokenType = Some ''Bearer''\<rparr>)"
proof -
  note run = storeTokens_accepted [OF ok]
  have fin: "fst (storeTokens a r x now st) = Inr ()" by (simp add: run)
  have acc: "items (snd (storeTokens a r x now st)) ''access_token'' = Some a"
    by (simp add: run map_add_def split: option.splits)
  have stamp: "items (snd (storeTokens a r x now st)) ''token_type'' = Some ''Bearer''"
    by (simp add: run)
  have ref: "items (snd (storeTokens a r x now st)) ''refresh_token'' = items st ''refresh_token''"
    if "r = None"
    using that by (simp add: run map_add_def split: option.splits)
  have exp: "items (snd (storeTokens a r x now st)) ''token_expiry'' = items st ''token_expiry''"
    if "x = None"
    using that by (simp add: run map_add_def split: option.splits)
  have log: "calls (snd (storeTokens a r x now st))
            = calls st @ [SetItem ''access_token'' a, SetItem ''token_type'' ''Bearer'']"
    if "r = None \<and> x = None"
    using that by (simp add: run)
  have readback: "fst (getTokens (snd (storeTokens a r x now st)))
            = Inr \<lparr>accessToken = Some a, refreshToken = None, expiresAt = None,
                   tokenType = Some ''Bearer''\<rparr>"
    if h: "r = None \<and> x = None \<and> (\<forall>k \<in> set oauthKeys. items st k = None)"
  proof -
    have ok1: "\<forall>n c. rejects (snd (storeTokens a r x now st)) n c = None"
      using ok by (simp add: run)
    from h have "items st ''refresh_token'' = None" "items st ''token_expiry'' = None"
      by (simp_all add: oauthKeys_def)
    with h ref exp acc stamp getTokens_accepted [OF ok1] show ?thesis
      by (simp add: truthyString_def)
  qed
  show ?thesis using fin acc stamp ref exp log readback by blast
qed

text \<open>
  The theorem on the empty store, and on a store that already holds a refresh token and
  an expiry, which the call keeps.
\<close>

theorem storeTokens_then_getTokens_witness:
  "(\<forall>n c. rejects \<lparr>items = Map.empty, calls = [], rejects = (\<lambda>_ _. None)\<rparr> n c = None)
   \<and> set oauthKeys \<inter> dom (items \<lparr>items = Map.empty, calls = [], rejects = (\<lambda>_ _. None)\<rparr>) = {}
   \<and> fst (getTokens (snd (storeTokens ''a'' None None 1000
              \<lparr>items = Map.empty, calls = [], rejects = (\<lambda>_ _. None)\<rparr>)))
       = Inr \<lparr>accessToken = Some ''a'', refreshToken = None, expiresAt = None,
              tokenType = Some ''Bearer''\<rparr>
   \<and> items (snd (storeTokens ''a'' None None 1000
              \<lparr>items = [''refresh_token'' \<mapsto> ''old'', ''token_expiry'' \<mapsto> ''5000''], calls = [],
               rejects = (\<lambda>_ _. None)\<rparr>)) ''refresh_token'' = Some ''old''
   \<and> items (snd (storeTokens ''a'' None None 1000
              \<lparr>items = [''refresh_token'' \<mapsto> ''old'', ''token_expiry'' \<mapsto> ''5000''], calls = [],
               rejects = (\<lambda>_ _. None)\<rparr>)) ''token_expiry'' = Some ''5000''"
  using storeTokens_then_getTokens
          [of "\<lparr>items = Map.empty, calls = [], rejects = (\<lambda>_ _. None)\<rparr>" "''a''" None None 1000]
        storeTokens_then_getTokens
          [of "\<lparr>items = [''refresh_token'' \<mapsto> ''old'', ''token_expiry'' \<mapsto> ''5000''], calls = [],
                rejects = (\<lambda>_ _. None)\<rparr>" "''a''" None None 1000]
  by simp

lemma digit_char:
  "d < 10 \<Longrightarrow> isDigit (''0123456789'' ! d) \<and> (of_char (''0123456789'' ! d) :: nat) - 48 = d
     \<and> \<not> isWhiteSpace (''0123456789'' ! d) \<and> ''0123456789'' ! d \<noteq> CHR ''-''
     \<and> ''0123456789'' ! d \<noteq> CHR ''+''"
proof -
  assume "d < 10"
  then have "d = 0 \<or> d = 1 \<or> d = 2 \<or> d = 3 \<or> d = 4 \<or> d = 5 \<or> d = 6 \<or> d = 7
    \<or> d = 8 \<or> d = 9"
    by presburger
  then show ?thesis
    by (elim disjE) (simp_all add: isDigit_def isWhiteSpace_def)
qed

lemma digitsOf_digits: "list_all isDigit (digitsOf n)"
proof (induction n rule: digitsOf.induct)
  case (1 n)
  show ?case
  proof (cases "n < 10")
    case True
    then show ?thesis using digit_char [of n] by (simp add: digitsOf.simps [of n])
  next
    case False
    then show ?thesis
      using "1.IH" digit_char [of "n mod 10"] by (simp add: digitsOf.simps [of n])
  qed
qed

lemma digitsOf_nonempty: "digitsOf n \<noteq> []"
  by (simp add: digitsOf.simps [of n])

lemma digitsValue_snoc:
  "digitsValue (ds @ [c]) = 10 * digitsValue ds + ((of_char c :: nat) - 48)"
  by (simp add: digitsValue_def)

lemma digitsValue_digitsOf: "digitsValue (digitsOf n) = n"
proof (induction n rule: digitsOf.induct)
  case (1 n)
  show ?case
  proof (cases "n < 10")
    case True
    then show ?thesis
      using digit_char [of n] by (simp add: digitsOf.simps [of n] digitsValue_def)
  next
    case False
    then show ?thesis
      using "1.IH" digit_char [of "n mod 10"]
      by (simp add: digitsOf.simps [of n] digitsValue_snoc)
  qed
qed

lemma digitsOf_head:
  "\<exists>c cs. digitsOf n = c # cs \<and> isDigit c \<and> \<not> isWhiteSpace c \<and> c \<noteq> CHR ''-'' \<and> c \<noteq> CHR ''+''"
proof (induction n rule: digitsOf.induct)
  case (1 n)
  show ?case
  proof (cases "n < 10")
    case True
    then show ?thesis using digit_char [of n] by (simp add: digitsOf.simps [of n])
  next
    case False
    with "1.IH" obtain c cs where "digitsOf (n div 10) = c # cs" "isDigit c" "\<not> isWhiteSpace c"
      "c \<noteq> CHR ''-''" "c \<noteq> CHR ''+''" by blast
    with False show ?thesis by (simp add: digitsOf.simps [of n])
  qed
qed

lemma takeWhile_digits: "takeWhile isDigit (digitsOf n) = digitsOf n"
  using digitsOf_digits [of n] by (simp add: list_all_iff)

lemma parseInt_numberToString: "parseInt (numberToString k) = Num k"
proof (cases "k < 0")
  case True
  have "\<not> isWhiteSpace (CHR ''-'')" by (simp add: isWhiteSpace_def)
  with True show ?thesis
    by (simp add: parseInt_def numberToString_def takeWhile_digits digitsOf_nonempty
        digitsValue_digitsOf)
next
  case False
  obtain c cs where h: "digitsOf (nat k) = c # cs" "isDigit c" "\<not> isWhiteSpace c"
    "c \<noteq> CHR ''-''" "c \<noteq> CHR ''+''"
    using digitsOf_head [of "nat k"] by blast
  have t: "takeWhile isDigit (c # cs) = c # cs" using takeWhile_digits [of "nat k"] h(1) by simp
  have v: "digitsValue (c # cs) = nat k" using digitsValue_digitsOf [of "nat k"] h(1) by simp
  have all: "\<forall>x\<in>set cs. isDigit x" using t h(2) by simp
  from False h all v show ?thesis
    by (simp add: parseInt_def numberToString_def Let_def takeWhile_eq_all_conv [THEN iffD2])
qed

lemma storeTokens_expiresIn_nonzero:
  assumes ok: "\<forall>n c. rejects st n c = None" and nz: "secs \<noteq> 0"
  shows "items (snd (storeTokens a r (Some secs) now st)) ''token_expiry''
           = Some (numberToString (now + secs * 1000))"
  using nz by (simp add: storeTokens_accepted [OF ok])

lemma storeTokens_negative_then_expired:
  assumes ok: "\<forall>n c. rejects st n c = None" and later: "now \<le> now'"
  shows "fst (isTokenExpired None now' (snd (storeTokens a None (Some (- 1)) now st))) = Inr True"
proof -
  let ?st1 = "snd (storeTokens a None (Some (- 1)) now st)"
  have e: "items ?st1 ''token_expiry'' = Some (numberToString (now - 1000))"
    using storeTokens_expiresIn_nonzero [OF ok, of "- 1" a None now] by simp
  have r: "rejects ?st1 (length (calls ?st1)) (GetItem ''token_expiry'') = None"
    using ok by (simp add: storeTokens_accepted [OF ok])
  have "now - 1000 < now'" using later by simp
  with isTokenExpired_stored [OF r e parseInt_numberToString, of now']
  show ?thesis by simp
qed

text \<open>
  Claim C7, at the lifetime zero. \<open>storeTokens({accessToken: "a", expiresIn: 0})\<close> at the
  time 1000 issues only the writes of the access token and of the token type: on the
  empty store \<open>token_expiry\<close> stays absent, and on a store that holds the expiry 9000
  of an earlier token that expiry stays, so that \<open>isTokenExpired()\<close> answers \<open>false\<close>
  at once. The guard \<open>if (tokens.expiresIn)\<close> is false at zero. The two lemmas before
  show the behaviour at every other lifetime.
\<close>

theorem storeTokens_expiresIn_zero_skipped:
  "fst (storeTokens ''a'' None (Some 0) 1000
          \<lparr>items = Map.empty, calls = [], rejects = (\<lambda>_ _. None)\<rparr>) = Inr ()
   \<and> calls (snd (storeTokens ''a'' None (Some 0) 1000
          \<lparr>items = Map.empty, calls = [], rejects = (\<lambda>_ _. None)\<rparr>))
       = [SetItem ''access_token'' ''a'', SetItem ''token_type'' ''Bearer'']
   \<and> items (snd (storeTokens ''a'' None (Some 0) 1000
          \<lparr>items = Map.empty, calls = [], rejects = (\<lambda>_ _. None)\<rparr>)) ''token_expiry'' = None
   \<and> items (snd (storeTokens ''a'' None (Some 0) 1000
          \<lparr>items = [''token_expiry'' \<mapsto> ''9000''], calls = [], rejects = (\<lambda>_ _. None)\<rparr>))
        ''token_expiry'' = Some ''9000''
   \<and> fst (isTokenExpired None 1000 (snd (storeTokens ''a'' None (Some 0) 1000
          \<lparr>items = [''token_expiry'' \<mapsto> ''9000''], calls = [], rejects = (\<lambda>_ _. None)\<rparr>)))
       = Inr False"
proof -
  have p: "parseInt ''9000'' = Num 9000"
    by (simp add: parseInt_def isWhiteSpace_def isDigit_def digitsValue_def)
  show ?thesis
    by (simp add: storeTokens_accepted isTokenExpired_def awaitThen_def getItem_accepted p)
qed

section \<open>Properties of the OAuth adapter\<close>

lemma getAccessToken_rejection:
  "fst (getAccessToken_try cg ce st) = Inl e \<Longrightarrow> fst (getAccessToken cg ce st) = None"
  by (cases "getAccessToken_try cg ce st") (auto simp: getAccessToken_def)

lemma getAccessToken_try_expired:
  assumes g: "cg st = (Inr (Some t), st1)" and t: "t \<noteq> []"
    and x: "ce st1 = (Inr True, st2)"
  shows "getAccessToken_try cg ce st =
           (case clearOAuthStorage st2 of (Inl e, st3) \<Rightarrow> (Inl e, st3)
                                        | (Inr _, st3) \<Rightarrow> (Inr None, st3))"
  using g t x
  by (simp add: getAccessToken_try_def awaitThen_def truthyString_def logout_def
      split: prod.splits sum.splits)

text \<open>
  Claim C10. When the core reports an access token and reports it expired,
  \<open>getAccessToken\<close> performs the bulk removal of the nine OAuth keys and returns
  \<open>null\<close>; once the store has accepted the removal none of the nine keys is left and
  all other keys are as before. Whenever an operation inside rejects (the core's token
  read, its expiry check, or the removal), \<open>getAccessToken\<close> returns \<open>null\<close>.
\<close>

theorem getAccessToken_expired_or_failing:
  "(\<forall>t st1 st2. cg st = (Inr (Some t), st1) \<and> t \<noteq> [] \<and> ce st1 = (Inr True, st2) \<longrightarrow>
      fst (getAccessToken cg ce st) = None
      \<and> calls (snd (getAccessToken cg ce st)) = calls st2 @ [MultiRemove oauthKeys]
      \<and> (rejects st2 (length (calls st2)) (MultiRemove oauthKeys) = None \<longrightarrow>
            (\<forall>k \<in> set oauthKeys. items (snd (getAccessToken cg ce st)) k = None)
          \<and> (\<forall>k. k \<notin> set oauthKeys \<longrightarrow>
                 items (snd (getAccessToken cg ce st)) k = items st2 k)))
   \<and> (\<forall>e. fst (getAccessToken_try cg ce st) = Inl e \<longrightarrow> fst (getAccessToken cg ce st) = None)
   \<and> (\<forall>e st1. cg st = (Inl e, st1) \<longrightarrow> fst (getAccessToken cg ce st) = None)
   \<and> (\<forall>t st1 e st2. cg st = (Inr (Some t), st1) \<and> t \<noteq> [] \<and> ce st1 = (Inl e, st2) \<longrightarrow>
        fst (getAccessToken cg ce st) = None)"
proof -
  have expired: "fst (getAccessToken cg ce st) = None
      \<and> calls (snd (getAccessToken cg ce st)) = calls st2 @ [MultiRemove oauthKeys]"
    if "cg st = (Inr (Some t), st1)" "t \<noteq> []" "ce st1 = (Inr True, st2)" for t st1 st2
    using getAccessToken_try_expired [where cg = cg and ce = ce and st = st, OF that]
      removeItems_calls [of oauthKeys st2]
    by (cases "removeItems oauthKeys st2"; cases "fst (removeItems oauthKeys st2)")
       (simp_all add: getAccessToken_def clearOAuthStorage_def)
  have cleared: "(\<forall>k \<in> set oauthKeys. items (snd (getAccessToken cg ce st)) k = None)
      \<and> (\<forall>k. k \<notin> set oauthKeys \<longrightarrow> items (snd (getAccessToken cg ce st)) k = items st2 k)"
    if "cg st = (Inr (Some t), st1)" "t \<noteq> []" "ce st1 = (Inr True, st2)"
      "rejects st2 (length (calls st2)) (MultiRemove oauthKeys) = None" for t st1 st2
    using getAccessToken_try_expired [where cg = cg and ce = ce and st = st, OF that(1,2,3)]
      removeItems_accepted [OF that(4)]
    by (simp add: getAccessToken_def clearOAuthStorage_def restrict_map_def)
  have caught: "fst (getAccessToken cg ce st) = None"
    if "fst (getAccessToken_try cg ce st) = Inl e" for e
    using that by (rule getAccessToken_rejection)
  have c1: "fst (getAccessToken cg ce st) = None" if "cg st = (Inl e, st1)" for e st1
    using that by (simp add: getAccessToken_def getAccessToken_try_def awaitThen_def)
  have c2: "fst (getAccessToken cg ce st) = None"
    if "cg st = (Inr (Some t), st1)" "t \<noteq> []" "ce st1 = (Inl e, st2)" for t st1 e st2
    using that
    by (simp add: getAccessToken_def getAccessToken_try_def awaitThen_def truthyString_def)
  show ?thesis
    using expired cleared caught c1 c2 by blast
qed

text \<open>
  The theorem with a core that reads through the storage adapter: a store holding a
  token that expired at 1000, asked at 2000; and a store whose every call rejects.
\<close>

theorem getAccessToken_expired_or_failing_witness:
  "getItem ''access_token''
       \<lparr>items = [''access_token'' \<mapsto> ''tok'', ''token_expiry'' \<mapsto> ''1000'', ''user_pref'' \<mapsto> ''dark''],
        calls = [], rejects = (\<lambda>_ _. None)\<rparr>
     = (Inr (Some ''tok''),
        \<lparr>items = [''access_token'' \<mapsto> ''tok'', ''token_expiry'' \<mapsto> ''1000'', ''user_pref'' \<mapsto> ''dark''],
         calls = [GetItem ''access_token''], rejects = (\<lambda>_ _. None)\<rparr>)
   \<and> isTokenExpired None 2000
       \<lparr>items = [''access_token'' \<mapsto> ''tok'', ''token_expiry'' \<mapsto> ''1000'', ''user_pref'' \<mapsto> ''dark''],
        calls = [GetItem ''access_token''], rejects = (\<lambda>_ _. None)\<rparr>
     = (Inr True,
        \<lparr>items = [''access_token'' \<mapsto> ''tok'', ''token_expiry'' \<mapsto> ''1000'', ''user_pref'' \<mapsto> ''dark''],
         calls = [GetItem ''access_token'', GetItem ''token_expiry''], rejects = (\<lambda>_ _. None)\<rparr>)
   \<and> fst (getAccessToken (getItem ''access_token'') (isTokenExpired None 2000)
       \<lparr>items = [''access_token'' \<mapsto> ''tok'', ''token_expiry'' \<mapsto> ''1000'', ''user_pref'' \<mapsto> ''dark''],
        calls = [], rejects = (\<lambda>_ _. None)\<rparr>) = None
   \<and> items (snd (getAccessToken (getItem ''access_token'') (isTokenExpired None 2000)
       \<lparr>items = [''access_token'' \<mapsto> ''tok'', ''token_expiry'' \<mapsto> ''1000'', ''user_pref'' \<mapsto> ''dark''],
        calls = [], rejects = (\<lambda>_ _. None)\<rparr>)) ''access_token'' = None
   \<and> items (snd (getAccessToken (getItem ''access_token'') (isTokenExpired None 2000)
       \<lparr>items = [''access_token'' \<mapsto> ''tok'', ''token_expiry'' \<mapsto> ''1000'', ''user_pref'' \<mapsto> ''dark''],
        calls = [], rejects = (\<lambda>_ _. None)\<rparr>)) ''user_pref'' = Some ''dark''
   \<and> (\<exists>e. fst (getAccessToken_try (getItem ''access_token'') (isTokenExpired None 2000)
       \<lparr>items = [''access_token'' \<mapsto> ''tok''], calls = [],
        rejects = (\<lambda>_ _. Some (JSError ''io''))\<rparr>) = Inl e)
   \<and> fst (getAccessToken (getItem ''access_token'') (isTokenExpired None 2000)
       \<lparr>items = [''access_token'' \<mapsto> ''tok''], calls = [],
        rejects = (\<lambda>_ _. Some (JSError ''io''))\<rparr>) = None"
proof -
  let ?m = "[''access_token'' \<mapsto> ''tok'', ''token_expiry'' \<mapsto> ''1000'', ''user_pref'' \<mapsto> ''dark'']"
  let ?st = "\<lparr>items = ?m, calls = [], rejects = (\<lambda>_ _. None)\<rparr>"
  let ?st1 = "\<lparr>items = ?m, calls = [GetItem ''access_token''], rejects = (\<lambda>_ _. None)\<rparr>"
  let ?st2 = "\<lparr>items = ?m, calls = [GetItem ''access_token'', GetItem ''token_expiry''],
               rejects = (\<lambda>_ _. None)\<rparr>"
  let ?bad = "\<lparr>items = [''access_token'' \<mapsto> ''tok''], calls = [],
               rejects = (\<lambda>_ _. Some (JSError ''io''))\<rparr>"
  let ?cg = "getItem ''access_token''"
  let ?ce = "isTokenExpired None 2000"
  have g: "?cg ?st = (Inr (Some ''tok''), ?st1)"
    by (simp add: getItem_accepted)
  have x: "?ce ?st1 = (Inr True, ?st2)"
    by (simp add: isTokenExpired_def awaitThen_def getItem_accepted parseInt_1000)
  have r: "rejects ?st2 (length (calls ?st2)) (MultiRemove oauthKeys) = None" by simp
  have t: "''tok'' \<noteq> []" by simp
  have k: "''access_token'' \<in> set oauthKeys" "''user_pref'' \<notin> set oauthKeys"
    by (simp_all add: oauthKeys_def)
  have good: "fst (getAccessToken ?cg ?ce ?st) = None
      \<and> items (snd (getAccessToken ?cg ?ce ?st)) ''access_token'' = None
      \<and> items (snd (getAccessToken ?cg ?ce ?st)) ''user_pref'' = items ?st2 ''user_pref''"
    using getAccessToken_expired_or_failing [of ?cg ?st ?ce] g t x r k by blast
  have b: "fst (getAccessToken_try ?cg ?ce ?bad)
             = Inl (JSError ''Failed to retrieve item with key \"access_token\": Error: io'')"
    by (simp add: getAccessToken_try_def awaitThen_def getItem_def backend_def)
  have bad: "fst (getAccessToken ?cg ?ce ?bad) = None"
    using getAccessToken_expired_or_failing [of ?cg ?bad ?ce] b by blast
  show ?thesis using g x good b bad by simp
qed

lemma urlParamsSet_fresh:
  "k \<notin> fst ` set ps \<Longrightarrow> urlParamsSet k v ps = ps @ [(k, v)]"
  by (induction ps) auto

lemma toURLSearchParams_fold:
  assumes "distinct (map fst params)" and "fst ` set acc \<inter> fst ` set params = {}"
  shows "foldl (\<lambda>urlParams (key, v).
              if v \<noteq> PNull \<and> v \<noteq> PUndefined then urlParamsSet key (stringOf v) urlParams
              else urlParams) acc params
         = acc @ map (\<lambda>(k, v). (k, stringOf v))
                   (filter (\<lambda>(k, v). v \<noteq> PNull \<and> v \<noteq> PUndefined) params)"
  using assms
proof (induction params arbitrary: acc)
  case Nil
  then show ?case by simp
next
  case (Cons p ps)
  obtain k v where p: "p = (k, v)" by (cases p)
  have fresh: "k \<notin> fst ` set acc" using Cons.prems(2) p by auto
  have d: "distinct (map fst ps)" and kps: "k \<notin> fst ` set ps" using Cons.prems(1) p by auto
  have dis: "fst ` set acc \<inter> fst ` set ps = {}" using Cons.prems(2) by auto
  show ?case
  proof (cases "v \<noteq> PNull \<and> v \<noteq> PUndefined")
    case True
    have "fst ` set (acc @ [(k, stringOf v)]) \<inter> fst ` set ps = {}" using dis kps by auto
    from Cons.IH [OF d this] True fresh show ?thesis
      by (simp add: p urlParamsSet_fresh)
  next
    case False
    from Cons.IH [OF d dis] False show ?thesis by (auto simp: p)
  qed
qed

lemma toURLSearchParams_distinct:
  "distinct (map fst params) \<Longrightarrow>
   toURLSearchParams params
     = map (\<lambda>(k, v). (k, stringOf v))
         (filter (\<lambda>(k, v). v \<noteq> PNull \<and> v \<noteq> PUndefined) params)"
  using toURLSearchParams_fold [of params "[]"] by (simp add: toURLSearchParams_def)

text \<open>
  Claim C4. For a parameter object (its keys are distinct), the \<open>URLSearchParams\<close> that
  \<open>handleCallback\<close> hands to the external core holds exactly the entries whose value is
  neither \<open>null\<close> nor \<open>undefined\<close>, each with its value as a string; a key whose value
  is \<open>null\<close> or \<open>undefined\<close> occurs with no value at all, not even the empty string.
\<close>

theorem handleCallback_drops_absent:
  assumes d: "distinct (map fst params)"
  shows "ExpoOAuthAdapter_handleCallback core params = core (toURLSearchParams params)
     \<and> toURLSearchParams params
         = map (\<lambda>(k, v). (k, stringOf v))
             (filter (\<lambda>(k, v). v \<noteq> PNull \<and> v \<noteq> PUndefined) params)
     \<and> (\<forall>k. k \<in> fst ` set (toURLSearchParams params)
            \<longleftrightarrow> (\<exists>v. (k, v) \<in> set params \<and> v \<noteq> PNull \<and> v \<noteq> PUndefined))
     \<and> (\<forall>k v. (k, v) \<in> set params \<and> (v = PNull \<or> v = PUndefined)
            \<longrightarrow> (\<forall>s. (k, s) \<notin> set (toURLSearchParams params)))
     \<and> (\<forall>k s. (k, PString s) \<in> set params
            \<longrightarrow> (\<forall>s'. (k, s') \<in> set (toURLSearchParams params) \<longleftrightarrow> s' = s))"
proof -
  note eq = toURLSearchParams_distinct [OF d]
  have uniq: "v = v'" if "(k, v) \<in> set params" "(k, v') \<in> set params" for k v v'
    using d that by (meson eq_key_imp_eq_value)
  have keys: "k \<in> fst ` set (toURLSearchParams params)
            \<longleftrightarrow> (\<exists>v. (k, v) \<in> set params \<and> v \<noteq> PNull \<and> v \<noteq> PUndefined)" for k
    unfolding eq by force
  have absent: "(k, s) \<notin> set (toURLSearchParams params)"
    if "(k, v) \<in> set params \<and> (v = PNull \<or> v = PUndefined)" for k v s
  proof
    assume "(k, s) \<in> set (toURLSearchParams params)"
    then obtain v' where "(k, v') \<in> set params" "v' \<noteq> PNull \<and> v' \<noteq> PUndefined"
      unfolding eq by auto
    with that uniq show False by blast
  qed
  have present: "(k, s') \<in> set (toURLSearchParams params) \<longleftrightarrow> s' = s"
    if "(k, PString s) \<in> set params" for k s s'
  proof
    assume "(k, s') \<in> set (toURLSearchParams params)"
    then obtain v' where v': "(k, v') \<in> set params" "s' = stringOf v'"
      unfolding eq by auto
    with that uniq have "v' = PString s" by blast
    with v' show "s' = s" by simp
  next
    assume "s' = s"
    with that show "(k, s') \<in> set (toURLSearchParams params)"
      unfolding eq by force
  qed
  show ?thesis
    using eq keys absent present by (simp add: ExpoOAuthAdapter_handleCallback_def)
qed

text \<open>
  The theorem at \<open>{code: "X", state: null}\<close>: the core receives \<open>code=X\<close> and no
  \<open>state\<close>.
\<close>

theorem handleCallback_drops_absent_witness:
  "distinct (map fst [(''code'', PString ''X''), (''state'', PNull)])
   \<and> toURLSearchParams [(''code'', PString ''X''), (''state'', PNull)] = [(''code'', ''X'')]
   \<and> ''state'' \<notin> fst ` set (toURLSearchParams [(''code'', PString ''X''), (''state'', PNull)])
   \<and> ExpoOAuthAdapter_handleCallback (\<lambda>u. u) [(''code'', PString ''X''), (''state'', PNull)]
       = [(''code'', ''X'')]"
proof -
  have d: "distinct (map fst [(''code'', PString ''X''), (''state'', PNull)])" by simp
  show ?thesis
    using handleCallback_drops_absent [OF d, of "\<lambda>u. u"] d by simp
qed

section \<open>Properties of the callback hook\<close>

lemma retry_is_handleCallback:
  "retry adapterHandle params config options w
     = snd (useOAuthCallback_handleCallback adapterHandle params config options w)"
  by (simp add: retry_def)

lemma autoStartEffect_is_handleCallback:
  "(case options of None \<Rightarrow> None | Some opts \<Rightarrow> autoStart opts) \<noteq> Some False \<Longrightarrow>
   autoStartEffect adapterHandle params config options w
     = snd (useOAuthCallback_handleCallback adapterHandle params config options w)"
  by (simp add: autoStartEffect_def)

lemma handleCallback_try_success:
  assumes "adapterHandle config params = Inr result" and "success result"
  shows "handleCallback_try adapterHandle params config options w
           = callOnSuccess options result
               (w\<lparr>status := StatusSuccess, message := ''Authentication successful''\<rparr>)"
  using assms by (simp add: handleCallback_try_def)

lemma callOnSuccess_quiet:
  assumes "\<forall>opts f. options = Some opts \<and> onSuccess opts = Some f \<longrightarrow> f result = None"
  shows "callOnSuccess options result w
           = (None, w\<lparr>onSuccessCalls := onSuccessCalls w
                @ (case options of None \<Rightarrow> []
                   | Some opts \<Rightarrow> (case onSuccess opts of None \<Rightarrow> [] | Some f \<Rightarrow> [result]))\<rparr>)"
  using assms by (auto simp: callOnSuccess_def split: option.splits)

text \<open>
  Claim C2, as amended. From any state of the hook, when the delegated handler resolves
  with a result whose success flag is true, and the success callback (if one is
  supplied) returns without throwing, \<open>handleCallback\<close> ends with the status
  \<open>success\<close> and the message \<open>Authentication successful\<close>; a supplied success
  callback has been called exactly once more, with the whole result, and the error
  callback not at all. \<open>retry\<close>, and the mount effect unless \<open>autoStart\<close> is
  \<open>false\<close>, are this same operation.
\<close>

theorem handleCallback_success:
  assumes h: "adapterHandle config params = Inr result" and s: "success result"
    and quiet: "\<forall>opts f. options = Some opts \<and> onSuccess opts = Some f \<longrightarrow> f result = None"
  shows "fst (useOAuthCallback_handleCallback adapterHandle params config options w) = None
     \<and> status (snd (useOAuthCallback_handleCallback adapterHandle params config options w))
         = StatusSuccess
     \<and> message (snd (useOAuthCallback_handleCallback adapterHandle params config options w))
         = ''Authentication successful''
     \<and> onSuccessCalls (snd (useOAuthCallback_handleCallback adapterHandle params config options w))
         = onSuccessCalls w
           @ (case options of None \<Rightarrow> []
              | Some opts \<Rightarrow> (case onSuccess opts of None \<Rightarrow> [] | Some f \<Rightarrow> [result]))
     \<and> onErrorCalls (snd (useOAuthCallback_handleCallback adapterHandle params config options w))
         = onErrorCalls w
     \<and> retry adapterHandle params config options w
         = snd (useOAuthCallback_handleCallback adapterHandle params config options w)
     \<and> ((case options of None \<Rightarrow> None | Some opts \<Rightarrow> autoStart opts) \<noteq> Some False \<longrightarrow>
          autoStartEffect adapterHandle params config options w
            = snd (useOAuthCallback_handleCallback adapterHandle params config options w))"
proof -
  have run: "useOAuthCallback_handleCallback adapterHandle params config options w
      = (None, w\<lparr>status := StatusSuccess, message := ''Authentication successful'',
                  onSuccessCalls := onSuccessCalls w
                    @ (case options of None \<Rightarrow> []
                       | Some opts \<Rightarrow> (case onSuccess opts of None \<Rightarrow> [] | Some f \<Rightarrow> [result]))\<rparr>)"
    by (simp add: useOAuthCallback_handleCallback_def handleCallback_try_success [where adapterHandle = adapterHandle and config = config and params = params, OF h s]
        callOnSuccess_quiet [OF quiet])
  show ?thesis
    using retry_is_handleCallback [of adapterHandle params config options w]
      autoStartEffect_is_handleCallback [of options adapterHandle params config w]
    by (simp add: run)
qed

text \<open>
  The theorem at the result \<open>{success: true, accessToken: "T"}\<close> with a success callback
  that returns.
\<close>

theorem handleCallback_success_witness:
  "(\<lambda>(c::unit) (p::callbackParams).
        (Inr \<lparr>success = True, error = None, other = [(''accessToken'', ''T'')]\<rparr> :: thrown + OAuthResult))
      () [(''code'', PString ''X'')]
     = Inr \<lparr>success = True, error = None, other = [(''accessToken'', ''T'')]\<rparr>
   \<and> success \<lparr>success = True, error = None, other = [(''accessToken'', ''T'')]\<rparr>
   \<and> status (snd (useOAuthCallback_handleCallback
        (\<lambda>(c::unit) p. Inr \<lparr>success = True, error = None, other = [(''accessToken'', ''T'')]\<rparr>)
        [(''code'', PString ''X'')] ()
        (Some \<lparr>onSuccess = Some (\<lambda>_. None), onError = None, autoStart = None\<rparr>)
        initialWorld)) = StatusSuccess
   \<and> message (snd (useOAuthCallback_handleCallback
        (\<lambda>(c::unit) p. Inr \<lparr>success = True, error = None, other = [(''accessToken'', ''T'')]\<rparr>)
        [(''code'', PString ''X'')] ()
        (Some \<lparr>onSuccess = Some (\<lambda>_. None), onError = None, autoStart = None\<rparr>)
        initialWorld)) = ''Authentication successful''
   \<and> onSuccessCalls (snd (useOAuthCallback_handleCallback
        (\<lambda>(c::unit) p. Inr \<lparr>success = True, error = None, other = [(''accessToken'', ''T'')]\<rparr>)
        [(''code'', PString ''X'')] ()
        (Some \<lparr>onSuccess = Some (\<lambda>_. None), onError = None, autoStart = None\<rparr>)
        initialWorld)) = [\<lparr>success = True, error = None, other = [(''accessToken'', ''T'')]\<rparr>]"
proof -
  let ?r = "\<lparr>success = True, error = None, other = [(''accessToken'', ''T'')]\<rparr>"
  let ?h = "\<lambda>(c::unit) (p::callbackParams). (Inr ?r :: thrown + OAuthResult)"
  let ?o = "Some \<lparr>onSuccess = Some (\<lambda>_. None), onError = None, autoStart = None\<rparr>"
  have h: "?h () [(''code'', PString ''X'')] = Inr ?r" by simp
  have s: "success ?r" by simp
  have q: "\<forall>opts f. ?o = Some opts \<and> onSuccess opts = Some f \<longrightarrow> f ?r = None" by auto
  show ?thesis
    using handleCallback_success [of ?h "()" "[(''code'', PString ''X'')]" ?r ?o initialWorld, OF h s q] q
    by (simp add: initialWorld_def)
qed

text \<open>
  Claim C2 as stated fails when the success callback throws: the call sits inside the
  \<open>try\<close> block, so the \<open>catch\<close> block runs and the hook ends in the status \<open>error\<close>
  with the thrown error's message, although the handler resolved with success.
\<close>

theorem handleCallback_success_callback_throws:
  "success \<lparr>success = True, error = None, other = [(''accessToken'', ''T'')]\<rparr>
   \<and> status (snd (useOAuthCallback_handleCallback
        (\<lambda>(c::unit) p. Inr \<lparr>success = True, error = None, other = [(''accessToken'', ''T'')]\<rparr>)
        [(''code'', PString ''X'')] ()
        (Some \<lparr>onSuccess = Some (\<lambda>_. Some (JSError ''navigation failed'')), onError = None,
               autoStart = None\<rparr>)
        initialWorld)) = StatusError
   \<and> status (snd (useOAuthCallback_handleCallback
        (\<lambda>(c::unit) p. Inr \<lparr>success = True, error = None, other = [(''accessToken'', ''T'')]\<rparr>)
        [(''code'', PString ''X'')] ()
        (Some \<lparr>onSuccess = Some (\<lambda>_. Some (JSError ''navigation failed'')), onError = None,
               autoStart = None\<rparr>)
        initialWorld)) \<noteq> StatusSuccess
   \<and> message (snd (useOAuthCallback_handleCallback
        (\<lambda>(c::unit) p. Inr \<lparr>success = True, error = None, other = [(''accessToken'', ''T'')]\<rparr>)
        [(''code'', PString ''X'')] ()
        (Some \<lparr>onSuccess = Some (\<lambda>_. Some (JSError ''navigation failed'')), onError = None,
               autoStart = None\<rparr>)
        initialWorld)) = ''navigation failed''"
  by (simp add: useOAuthCallback_handleCallback_def handleCallback_try_def callOnSuccess_def
      callOnError_def initialWorld_def)

lemma handleCallback_try_failure:
  assumes "case adapterHandle config params of Inl e \<Rightarrow> True | Inr r \<Rightarrow> \<not> success r"
  shows "handleCallback_try adapterHandle params config options w
           = (Some (case adapterHandle config params of
                      Inl e \<Rightarrow> e
                    | Inr r \<Rightarrow> JSError (case error r of
                                         None \<Rightarrow> ''OAuth authentication failed''
                                       | Some reason \<Rightarrow>
                                           if reason \<noteq> [] then reason
                                           else ''OAuth authentication failed'')),
              w\<lparr>status := StatusProcessing, message := ''Processing OAuth callback...''\<rparr>)"
  using assms by (simp add: handleCallback_try_def split: sum.splits)

lemma handleCallback_caught:
  assumes "handleCallback_try adapterHandle params config options w = (Some err, w')"
  shows "status (snd (useOAuthCallback_handleCallback adapterHandle params config options w))
           = StatusError
     \<and> message (snd (useOAuthCallback_handleCallback adapterHandle params config options w))
           = (case err of JSError m \<Rightarrow> m | NonError v \<Rightarrow> ''Unknown error occurred'')
     \<and> onErrorCalls (snd (useOAuthCallback_handleCallback adapterHandle params config options w))
           = onErrorCalls w'
             @ (case options of None \<Rightarrow> []
                | Some opts \<Rightarrow>
                    (case onError opts of None \<Rightarrow> []
                     | Some f \<Rightarrow> [JSError (case err of JSError m \<Rightarrow> m
                                             | NonError v \<Rightarrow> ''Unknown error occurred'')]))
     \<and> onSuccessCalls (snd (useOAuthCallback_handleCallback adapterHandle params config options w))
           = onSuccessCalls w'"
  using assms
  by (cases err)
     (simp_all add: useOAuthCallback_handleCallback_def callOnError_def Let_def split: option.splits)

text \<open>
  Claim C3, as amended. From any state of the hook, when the delegated handler throws, or
  resolves with a result whose success flag is false, \<open>handleCallback\<close> ends with the
  status \<open>error\<close>. The message is the non-empty message of a thrown \<open>Error\<close>; the
  fixed text \<open>Unknown error occurred\<close> for a thrown value that is no \<open>Error\<close>,
  whatever that value carries; the non-empty \<open>error\<close> text of a failed result; and the
  fixed text \<open>OAuth authentication failed\<close> for a failed result without an \<open>error\<close>
  text. A supplied error callback has been called exactly once more, with an \<open>Error\<close>
  carrying the message; the success callback not at all. (Nothing is said of the message
  after a thrown \<open>Error\<close> whose message is empty.)
\<close>

theorem handleCallback_failure:
  assumes fail: "case adapterHandle config params of Inl e \<Rightarrow> True | Inr r \<Rightarrow> \<not> success r"
  shows "status (snd (useOAuthCallback_handleCallback adapterHandle params config options w))
           = StatusError
     \<and> (\<forall>m. adapterHandle config params = Inl (JSError m) \<and> m \<noteq> [] \<longrightarrow>
           message (snd (useOAuthCallback_handleCallback adapterHandle params config options w)) = m)
     \<and> (\<forall>v. adapterHandle config params = Inl (NonError v) \<longrightarrow>
           message (snd (useOAuthCallback_handleCallback adapterHandle params config options w))
             = ''Unknown error occurred'')
     \<and> (\<forall>r reason. adapterHandle config params = Inr r \<and> error r = Some reason \<and> reason \<noteq> [] \<longrightarrow>
           message (snd (useOAuthCallback_handleCallback adapterHandle params config options w))
             = reason)
     \<and> (\<forall>r. adapterHandle config params = Inr r \<and> (error r = None \<or> error r = Some []) \<longrightarrow>
           message (snd (useOAuthCallback_handleCallback adapterHandle params config options w))
             = ''OAuth authentication failed'')
     \<and> onErrorCalls (snd (useOAuthCallback_handleCallback adapterHandle params config options w))
           = onErrorCalls w
             @ (case options of None \<Rightarrow> []
                | Some opts \<Rightarrow>
                    (case onError opts of None \<Rightarrow> []
                     | Some f \<Rightarrow> [JSError (message (snd (useOAuthCallback_handleCallback
                                                            adapterHandle params config options w)))]))
     \<and> onSuccessCalls (snd (useOAuthCallback_handleCallback adapterHandle params config options w))
           = onSuccessCalls w"
proof -
  note t = handleCallback_try_failure
    [where adapterHandle = adapterHandle and config = config and params = params, OF fail,
     of options w]
  note c = handleCallback_caught
    [where adapterHandle = adapterHandle and config = config and params = params, OF t]
  show ?thesis
    using c by (auto split: sum.splits option.splits thrown.splits)
qed

text \<open>
  The theorem at a rejection with \<open>Error("Network error")\<close>, at a thrown value that is no
  \<open>Error\<close>, at a failed result with the reason \<open>access_denied\<close>, and at a failed
  result without a reason.
\<close>

theorem handleCallback_failure_witness:
  "status (snd (useOAuthCallback_handleCallback
       (\<lambda>(c::unit) (p::callbackParams). (Inl (JSError ''Network error'') :: thrown + OAuthResult))
       [] () (Some \<lparr>onSuccess = None, onError = Some (\<lambda>_. None), autoStart = None\<rparr>)
       initialWorld)) = StatusError
   \<and> message (snd (useOAuthCallback_handleCallback
       (\<lambda>(c::unit) (p::callbackParams). (Inl (JSError ''Network error'') :: thrown + OAuthResult))
       [] () (Some \<lparr>onSuccess = None, onError = Some (\<lambda>_. None), autoStart = None\<rparr>)
       initialWorld)) = ''Network error''
   \<and> onErrorCalls (snd (useOAuthCallback_handleCallback
       (\<lambda>(c::unit) (p::callbackParams). (Inl (JSError ''Network error'') :: thrown + OAuthResult))
       [] () (Some \<lparr>onSuccess = None, onError = Some (\<lambda>_. None), autoStart = None\<rparr>)
       initialWorld)) = [JSError ''Network error'']
   \<and> message (snd (useOAuthCallback_handleCallback
       (\<lambda>(c::unit) (p::callbackParams). (Inl (NonError ''timeout'') :: thrown + OAuthResult))
       [] () None initialWorld)) = ''Unknown error occurred''
   \<and> message (snd (useOAuthCallback_handleCallback
       (\<lambda>(c::unit) (p::callbackParams).
           (Inr \<lparr>success = False, error = Some ''access_denied'',
                 other = [(''message'', ''User denied access'')]\<rparr> :: thrown + OAuthResult))
       [] () None initialWorld)) = ''access_denied''
   \<and> message (snd (useOAuthCallback_handleCallback
       (\<lambda>(c::unit) (p::callbackParams).
           (Inr \<lparr>success = False, error = None, other = []\<rparr> :: thrown + OAuthResult))
       [] () None initialWorld)) = ''OAuth authentication failed''"
proof -
  let ?h1 = "\<lambda>(c::unit) (p::callbackParams). (Inl (JSError ''Network error'') :: thrown + OAuthResult)"
  let ?h2 = "\<lambda>(c::unit) (p::callbackParams). (Inl (NonError ''timeout'') :: thrown + OAuthResult)"
  let ?h3 = "\<lambda>(c::unit) (p::callbackParams).
           (Inr \<lparr>success = False, error = Some ''access_denied'',
                 other = [(''message'', ''User denied access'')]\<rparr> :: thrown + OAuthResult)"
  let ?h4 = "\<lambda>(c::unit) (p::callbackParams).
           (Inr \<lparr>success = False, error = None, other = []\<rparr> :: thrown + OAuthResult)"
  let ?o = "Some \<lparr>onSuccess = None, onError = Some (\<lambda>_. None), autoStart = None\<rparr>"
  have f1: "case ?h1 () [] of Inl e \<Rightarrow> True | Inr r \<Rightarrow> \<not> success r" by simp
  have f2: "case ?h2 () [] of Inl e \<Rightarrow> True | Inr r \<Rightarrow> \<not> success r" by simp
  have f3: "case ?h3 () [] of Inl e \<Rightarrow> True | Inr r \<Rightarrow> \<not> success r" by simp
  have f4: "case ?h4 () [] of Inl e \<Rightarrow> True | Inr r \<Rightarrow> \<not> success r" by simp
  show ?thesis
    using handleCallback_failure [of ?h1 "()" "[]" ?o initialWorld, OF f1]
      handleCallback_failure [of ?h2 "()" "[]" None initialWorld, OF f2]
      handleCallback_failure [of ?h3 "()" "[]" None initialWorld, OF f3]
      handleCallback_failure [of ?h4 "()" "[]" None initialWorld, OF f4]
    by (simp add: initialWorld_def)
qed

text \<open>
  Claim C3 as stated fails at three inputs. A rejection with \<open>new Error()\<close>, whose message
  is empty, carries no reason, and the message becomes the empty text, not a generic one.
  A rejection with the text \<open>timeout\<close>, which is no \<open>Error\<close>, carries a reason, and the
  message becomes \<open>Unknown error occurred\<close>. A failed result without an \<open>error\<close> text
  gets \<open>OAuth authentication failed\<close>, which is not the unknown-error text.
\<close>

theorem handleCallback_failure_fallbacks:
  "message (snd (useOAuthCallback_handleCallback
       (\<lambda>(c::unit) (p::callbackParams). (Inl (JSError []) :: thrown + OAuthResult))
       [] () None initialWorld)) = []
   \<and> message (snd (useOAuthCallback_handleCallback
       (\<lambda>(c::unit) (p::callbackParams). (Inl (NonError ''timeout'') :: thrown + OAuthResult))
       [] () None initialWorld)) = ''Unknown error occurred''
   \<and> message (snd (useOAuthCallback_handleCallback
       (\<lambda>(c::unit) (p::callbackParams). (Inl (NonError ''timeout'') :: thrown + OAuthResult))
       [] () None initialWorld)) \<noteq> ''timeout''
   \<and> message (snd (useOAuthCallback_handleCallback
       (\<lambda>(c::unit) (p::callbackParams).
           (Inr \<lparr>success = False, error = None, other = []\<rparr> :: thrown + OAuthResult))
       [] () None initialWorld)) = ''OAuth authentication failed''
   \<and> message (snd (useOAuthCallback_handleCallback
       (\<lambda>(c::unit) (p::callbackParams).
           (Inr \<lparr>success = False, error = None, other = []\<rparr> :: thrown + OAuthResult))
       [] () None initialWorld)) \<noteq> ''Unknown error occurred''"
  by (simp add: useOAuthCallback_handleCallback_def handleCallback_try_def callOnError_def
      initialWorld_def)

section \<open>Properties of the callback screen\<close>

lemma clearTimeout_scheduled:
  assumes "\<forall>t \<in> set (pending ts). fst t < nextHandle ts"
  shows "pending (clearTimeout (nextHandle ts)
            (ts\<lparr>pending := pending ts @ [(nextHandle ts, d, cb)],
                nextHandle := Suc (nextHandle ts)\<rparr>)) = pending ts"
proof -
  have "filter (\<lambda>t. fst t \<noteq> nextHandle ts) (pending ts) = pending ts"
    using assms by (auto simp: filter_id_conv)
  then show ?thesis by (simp add: clearTimeout_def)
qed

text \<open>
  What the effect does in general. When the screen is in the success state, auto-redirect
  is enabled (the default) and a success callback is supplied, the effect schedules one
  timer with the configured delay (1500 ms by default); its callback is the empty
  function. The effect's cleanup, which React runs on unmount, clears that timer and
  leaves the pending timers as they were before the effect. In every other case the
  effect schedules nothing and its cleanup does nothing. The runtime hands out fresh
  handles: the handle of every pending timer is below the next handle.
\<close>

lemma autoRedirect_timer:
  assumes wf: "\<forall>t \<in> set (pending ts). fst t < nextHandle ts"
  shows "(st = StatusSuccess \<and> autoRedirectOf props \<and> onSuccessSupplied props \<longrightarrow>
            fst (autoRedirectEffect st props ts) = Some (nextHandle ts)
          \<and> pending (snd (autoRedirectEffect st props ts))
              = pending ts @ [(nextHandle ts, redirectDelayOf props, EmptyCallback)]
          \<and> pending (autoRedirectCleanup (fst (autoRedirectEffect st props ts))
                        (snd (autoRedirectEffect st props ts))) = pending ts)
     \<and> (\<not> (st = StatusSuccess \<and> autoRedirectOf props \<and> onSuccessSupplied props) \<longrightarrow>
            autoRedirectEffect st props ts = (None, ts)
          \<and> autoRedirectCleanup (fst (autoRedirectEffect st props ts))
               (snd (autoRedirectEffect st props ts)) = ts)
     \<and> (autoRedirect props = None \<longrightarrow> autoRedirectOf props)
     \<and> (redirectDelay props = None \<longrightarrow> redirectDelayOf props = 1500)
     \<and> (\<forall>d. redirectDelay props = Some d \<longrightarrow> redirectDelayOf props = d)"
  using clearTimeout_scheduled [OF wf]
  by (simp add: autoRedirectEffect_def autoRedirectCleanup_def setTimeout_def
      autoRedirectOf_def redirectDelayOf_def)

text \<open>
  The same with one other timer pending: in the success state with the defaults, and in
  the error state.
\<close>

lemma autoRedirect_timer_example:
  "list_all (\<lambda>t. fst t < nextHandle \<lparr>pending = [(0, 250, EmptyCallback)], nextHandle = 1\<rparr>)
      (pending \<lparr>pending = [(0, 250, EmptyCallback)], nextHandle = 1\<rparr>)
   \<and> autoRedirectOf \<lparr>autoRedirect = None, redirectDelay = None, onSuccessSupplied = True\<rparr>
   \<and> autoRedirectEffect StatusSuccess
        \<lparr>autoRedirect = None, redirectDelay = None, onSuccessSupplied = True\<rparr>
        \<lparr>pending = [(0, 250, EmptyCallback)], nextHandle = 1\<rparr>
       = (Some 1, \<lparr>pending = [(0, 250, EmptyCallback), (1, 1500, EmptyCallback)], nextHandle = 2\<rparr>)
   \<and> pending (autoRedirectCleanup (Some 1)
        \<lparr>pending = [(0, 250, EmptyCallback), (1, 1500, EmptyCallback)], nextHandle = 2\<rparr>)
       = [(0, 250, EmptyCallback)]
   \<and> autoRedirectEffect StatusError
        \<lparr>autoRedirect = None, redirectDelay = Some 300, onSuccessSupplied = True\<rparr>
        \<lparr>pending = [(0, 250, EmptyCallback)], nextHandle = 1\<rparr>
       = (None, \<lparr>pending = [(0, 250, EmptyCallback)], nextHandle = 1\<rparr>)
   \<and> redirectDelayOf \<lparr>autoRedirect = None, redirectDelay = Some 300, onSuccessSupplied = True\<rparr>
       = 300"
proof -
  let ?ts = "\<lparr>pending = [(0, 250, EmptyCallback)], nextHandle = 1\<rparr>"
  have wf: "\<forall>t \<in> set (pending ?ts). fst t < nextHandle ?ts" by simp
  show ?thesis
    using autoRedirect_timer [OF wf,
            of StatusSuccess
               "\<lparr>autoRedirect = None, redirectDelay = None, onSuccessSupplied = True\<rparr>"]
          autoRedirect_timer [OF wf,
            of StatusError
               "\<lparr>autoRedirect = None, redirectDelay = Some 300, onSuccessSupplied = True\<rparr>"]
    by (simp add: autoRedirectEffect_def autoRedirectCleanup_def setTimeout_def clearTimeout_def
      autoRedirectOf_def redirectDelayOf_def)
qed

text \<open>
  Without a success callback the guard of the effect is false: in the success state with
  auto-redirect enabled no timer is scheduled.
\<close>

lemma autoRedirect_without_onSuccess:
  "autoRedirectOf \<lparr>autoRedirect = Some True, redirectDelay = Some 1500, onSuccessSupplied = False\<rparr>
   \<and> autoRedirectEffect StatusSuccess
        \<lparr>autoRedirect = Some True, redirectDelay = Some 1500, onSuccessSupplied = False\<rparr>
        \<lparr>pending = [], nextHandle = 0\<rparr>
       = (None, \<lparr>pending = [], nextHandle = 0\<rparr>)
   \<and> pending (snd (autoRedirectEffect StatusSuccess
        \<lparr>autoRedirect = Some True, redirectDelay = Some 1500, onSuccessSupplied = False\<rparr>
        \<lparr>pending = [], nextHandle = 0\<rparr>)) = []"
  by (simp add: autoRedirectEffect_def autoRedirectOf_def)

text \<open>
  Claim C9, at the failing input. The handler resolves with
  \<open>{success: true, accessToken: "T"}\<close>, a success callback is supplied,
  \<open>autoRedirect\<close> is \<open>true\<close> and \<open>redirectDelay\<close> is 1500. The hook ends in the
  success state and has already called the success callback, once, before any timer
  exists. The effect then schedules one timer of 1500 ms whose callback is the empty
  function: when it fires, the status, the message and the calls made to the caller's
  callbacks are what they were. No redirect action visible to the caller is scheduled
  to fire after the delay.
\<close>

theorem autoRedirect_fires_empty_callback:
  "status (snd (useOAuthCallback_handleCallback
        (\<lambda>(c::unit) p. Inr \<lparr>success = True, error = None, other = [(''accessToken'', ''T'')]\<rparr>)
        [(''code'', PString ''X'')] ()
        (Some \<lparr>onSuccess = Some (\<lambda>_. None), onError = None, autoStart = Some True\<rparr>)
        initialWorld)) = StatusSuccess
   \<and> onSuccessCalls (snd (useOAuthCallback_handleCallback
        (\<lambda>(c::unit) p. Inr \<lparr>success = True, error = None, other = [(''accessToken'', ''T'')]\<rparr>)
        [(''code'', PString ''X'')] ()
        (Some \<lparr>onSuccess = Some (\<lambda>_. None), onError = None, autoStart = Some True\<rparr>)
        initialWorld)) = [\<lparr>success = True, error = None, other = [(''accessToken'', ''T'')]\<rparr>]
   \<and> autoRedirectEffect StatusSuccess
        \<lparr>autoRedirect = Some True, redirectDelay = Some 1500, onSuccessSupplied = True\<rparr>
        \<lparr>pending = [], nextHandle = 0\<rparr>
       = (Some 0, \<lparr>pending = [(0, 1500, EmptyCallback)], nextHandle = 1\<rparr>)
   \<and> runTimerCallback EmptyCallback
        (snd (useOAuthCallback_handleCallback
          (\<lambda>(c::unit) p. Inr \<lparr>success = True, error = None, other = [(''accessToken'', ''T'')]\<rparr>)
          [(''code'', PString ''X'')] ()
          (Some \<lparr>onSuccess = Some (\<lambda>_. None), onError = None, autoStart = Some True\<rparr>)
          initialWorld))
       = \<lparr>status = StatusSuccess, message = ''Authentication successful'',
          onSuccessCalls = [\<lparr>success = True, error = None, other = [(''accessToken'', ''T'')]\<rparr>],
          onErrorCalls = []\<rparr>"
  by (simp add: useOAuthCallback_handleCallback_def handleCallback_try_def callOnSuccess_def
      initialWorld_def autoRedirectEffect_def autoRedirectOf_def redirectDelayOf_def
      setTimeout_def)

end
